theory Spec2Isabelle
  imports Main
begin

section \<open>Python built-ins used by the build engine\<close>

text \<open>
  Strings are lists of characters. The functions below are the string methods and
  library calls that \<^verbatim>\<open>build.py\<close> and \<^verbatim>\<open>plugins.py\<close> use:
  \<^verbatim>\<open>str.strip(chars)\<close>, \<^verbatim>\<open>sep.join(list)\<close>, \<^verbatim>\<open>'{}'.format(int)\<close>,
  \<^verbatim>\<open>int(str)\<close>, \<^verbatim>\<open>str.replace(os.sep, '')\<close> and \<^verbatim>\<open>os.path.join\<close> (POSIX).
\<close>

definition py_strip :: "string \<Rightarrow> string \<Rightarrow> string" where
  "py_strip chars s =
     rev (dropWhile (\<lambda>c. c \<in> set chars) (rev (dropWhile (\<lambda>c. c \<in> set chars) s)))"

fun py_join :: "string \<Rightarrow> string list \<Rightarrow> string" where
  "py_join sep [] = []"
| "py_join sep [x] = x"
| "py_join sep (x # y # ys) = x @ sep @ py_join sep (y # ys)"

definition digit_char :: "nat \<Rightarrow> char" where
  "digit_char d = ''0123456789'' ! d"

fun str_nat :: "nat \<Rightarrow> string" where
  "str_nat n = (if n < 10 then [digit_char n] else str_nat (n div 10) @ [digit_char (n mod 10)])"

declare str_nat.simps [simp del]

definition py_str_int :: "int \<Rightarrow> string" where
  "py_str_int i = (if i < 0 then CHR ''-'' # str_nat (nat (- i)) else str_nat (nat i))"

definition is_digit :: "char \<Rightarrow> bool" where
  "is_digit c = (c \<in> set ''0123456789'')"

definition digit_val :: "char \<Rightarrow> nat" where
  "digit_val c = of_char c - 48"

definition py_isspace :: "char \<Rightarrow> bool" where
  "py_isspace c =
     (c \<in> set [CHR '' '', CHR 0x09, CHR 0x0A, CHR 0x0B, CHR 0x0C, CHR 0x0D,
                CHR 0x1C, CHR 0x1D, CHR 0x1E, CHR 0x1F])"

fun py_digits :: "nat \<Rightarrow> string \<Rightarrow> nat option" where
  "py_digits acc [] = Some acc"
| "py_digits acc (c # cs) =
     (if is_digit c then py_digits (acc * 10 + digit_val c) cs
      else if c = CHR ''_'' \<and> cs \<noteq> [] \<and> is_digit (hd cs) then py_digits acc cs
      else None)"

definition py_unsigned :: "string \<Rightarrow> nat option" where
  "py_unsigned s = (case s of [] \<Rightarrow> None | c # cs \<Rightarrow> if is_digit c then py_digits 0 s else None)"

text \<open>
  \<^verbatim>\<open>int(s)\<close> for a string in base 10: surrounding white space is dropped, one sign is
  allowed, the digits may be grouped by single underscores. \<open>None\<close> is \<^verbatim>\<open>ValueError\<close>.
  (ASCII input only; characters are bytes here.)
\<close>

definition py_int :: "string \<Rightarrow> int option" where
  "py_int s =
     (let t = rev (dropWhile py_isspace (rev (dropWhile py_isspace s)))
      in case t of
           [] \<Rightarrow> None
         | c # cs \<Rightarrow>
             if c = CHR ''-'' then map_option (\<lambda>n. - int n) (py_unsigned cs)
             else if c = CHR ''+'' then map_option int (py_unsigned cs)
             else map_option int (py_unsigned t))"

definition os_sep :: char where
  "os_sep = CHR ''/''"

text \<open>\<^verbatim>\<open>s.replace(os.sep, '')\<close>: every separator character is removed.\<close>

definition py_remove_sep :: "string \<Rightarrow> string" where
  "py_remove_sep s = filter (\<lambda>c. c \<noteq> os_sep) s"

text \<open>
  \<^verbatim>\<open>posixpath.join(a, b)\<close>: an absolute \<open>b\<close> replaces \<open>a\<close>; otherwise \<open>b\<close> is appended,
  with a separator unless \<open>a\<close> is empty or already ends with one.
\<close>

definition os_path_join :: "string \<Rightarrow> string \<Rightarrow> string" where
  "os_path_join a b =
     (if b \<noteq> [] \<and> hd b = os_sep then b
      else if a = [] \<or> last a = os_sep then a @ b
      else a @ [os_sep] @ b)"

section \<open>Statuses, errors and build steps\<close>

text \<open>
  The status strings of the messages: \<^verbatim>\<open>'running'\<close>, \<^verbatim>\<open>'success'\<close>, \<^verbatim>\<open>'warning'\<close>,
  \<^verbatim>\<open>'fail'\<close>, \<^verbatim>\<open>'exception'\<close>, \<^verbatim>\<open>'cancelled'\<close>.
\<close>

datatype status = Running | Success | Warning | Fail | Exception | Cancelled

text \<open>Values of a plugin configuration dictionary, and the dictionary itself.\<close>

datatype pyval = PNone | PBool bool | PInt int | PStr string | PStrList "string list"

type_synonym pdict = "(string \<times> pyval) list"

text \<open>Every exception the modelled code raises or lets through.\<close>

datatype error =
    KeyError
  | TypeError
  | AttributeError
  | ValueError
  | BadPluginConfig pdict
  | PluginNotFound
  | ExecCmdError string
  | TimeoutError
  | CancelledError

text \<open>
  A step is a \<^verbatim>\<open>BuildStep\<close> or an instance of one of its subclasses in
  \<^verbatim>\<open>plugins.py\<close>; the subclass keeps its own attributes. For
  \<^verbatim>\<open>AptInstallStep\<close> these are \<^verbatim>\<open>packages\<close>, \<^verbatim>\<open>install_cmd\<close>, \<^verbatim>\<open>reconf_cmd\<close> and
  the cache \<^verbatim>\<open>_cmd\<close> (\<open>None\<close> until the command is resolved); for
  \<^verbatim>\<open>PythonCreateVenvStep\<close>, \<^verbatim>\<open>data_dir\<close>, \<^verbatim>\<open>venv_dir\<close> and \<^verbatim>\<open>pyversion\<close>.
\<close>

datatype step_class =
    BuildStepBase
  | PythonCreateVenvStep string string string
  | AptUpdateStep
  | AptInstallStep "string list" string string "string option"

record build_step =
  name :: string
  command :: string
  warning_on_fail :: bool
  timeout :: int
  stop_on_fail :: bool
  step_class :: step_class

text \<open>
  \<^verbatim>\<open>BuildStep.__init__(name, command, warning_on_fail=False, timeout=3600,
  stop_on_fail=False)\<close>. The command is stored with its leading and trailing spaces
  removed; nothing else is checked.
\<close>

definition BuildStep_init :: "string \<Rightarrow> string \<Rightarrow> bool \<Rightarrow> int \<Rightarrow> bool \<Rightarrow> build_step" where
  "BuildStep_init nm cmd wof tmo sof =
     \<lparr> name = nm, command = py_strip '' '' cmd, warning_on_fail = wof,
       timeout = tmo, stop_on_fail = sof, step_class = BuildStepBase \<rparr>"

text \<open>
  \<^verbatim>\<open>PythonCreateVenvStep.__init__(data_dir, venv_dir, pyversion)\<close>,
  \<^verbatim>\<open>AptUpdateStep.__init__(timeout=600)\<close> and
  \<^verbatim>\<open>AptInstallStep.__init__(packages, timeout=600)\<close>: each calls the base
  constructor with \<^verbatim>\<open>stop_on_fail=True\<close>.
\<close>

definition PythonCreateVenvStep_init :: "string \<Rightarrow> string \<Rightarrow> string \<Rightarrow> build_step" where
  "PythonCreateVenvStep_init data_dir venv_dir pyversion =
     (BuildStep_init ''Create virtualenv''
        (''mkdir -p '' @ data_dir @ '' && '' @ pyversion @ '' -m venv '' @ venv_dir)
        False 3600 True)
     \<lparr> step_class := PythonCreateVenvStep data_dir venv_dir pyversion \<rparr>"

definition AptUpdateStep_init :: "int \<Rightarrow> build_step" where
  "AptUpdateStep_init tmo =
     (BuildStep_init ''Updating apt packages list'' ''sudo apt-get update'' False tmo True)
     \<lparr> step_class := AptUpdateStep \<rparr>"

definition AptInstallStep_init :: "string list \<Rightarrow> int \<Rightarrow> build_step" where
  "AptInstallStep_init packages tmo =
     (let packages_str = py_join '' '' packages;
          install_cmd = py_join '' '' [''sudo apt-get install -y'', packages_str];
          reconf_cmd = py_join '' '' [''sudo dpkg-reconfigure'', packages_str]
      in (BuildStep_init ''Installing packages with apt-get'' install_cmd False tmo True)
         \<lparr> step_class := AptInstallStep packages install_cmd reconf_cmd None \<rparr>)"

section \<open>The environment of a build\<close>

text \<open>
  What the code reads from outside is a parameter of the model:
  \<^item> \<open>shell\<close>: what the \<open>n\<close>-th shell invocation of the run does for a command and a
    working directory: the lines it hands to the line callback, in order, and then
    the output it returns or the exception it raises;
  \<^item> \<open>path_exists\<close>: \<^verbatim>\<open>os.path.exists\<close>, after \<open>n\<close> shell invocations;
  \<^item> \<open>uuid4\<close>: the \<open>n\<close>-th identifier drawn;
  \<^item> \<open>PLUGINS_DATA_DIR\<close>: the setting, \<open>None\<close> when the settings have no such
    attribute;
  \<^item> \<open>abspath\<close>: \<^verbatim>\<open>os.path.abspath\<close>, which depends on the directory of the process;
  \<^item> \<open>get_plugin\<close>: the plugin registry, which returns a plugin class of
    \<^verbatim>\<open>plugins.py\<close> or raises.
  The \<open>world\<close> is what a run changes outside the builder: the commands executed so
  far, each with its working directory, and the number of identifiers drawn.
\<close>

datatype plugin_class = PythonVenvPluginClass | AptInstallPluginClass

record env =
  shell :: "nat \<Rightarrow> string \<Rightarrow> string \<Rightarrow> string list \<times> (error + string)"
  path_exists :: "nat \<Rightarrow> string \<Rightarrow> bool"
  uuid4 :: "nat \<Rightarrow> string"
  PLUGINS_DATA_DIR :: "string option"
  abspath :: "string \<Rightarrow> string"
  get_plugin :: "pyval \<Rightarrow> error + plugin_class"

record world =
  shell_log :: "(string \<times> string) list"
  uuids_drawn :: nat

text \<open>
  Modelled from the spec: \<^verbatim>\<open>exec_cmd\<close> of the \<^verbatim>\<open>toxiccore\<close> package (section 4.1,
  ShellExec). It runs the command, calls \<^verbatim>\<open>out_fn(line_index, line)\<close> for each line
  with a 0-based index, in order, and then returns the output or raises
  \<^verbatim>\<open>ExecCmdError\<close>, a timeout or a cancellation. Without \<^verbatim>\<open>out_fn\<close> no callback
  runs. The callback works on the state \<open>b\<close> of its owner.
\<close>

definition exec_cmd ::
  "env \<Rightarrow> string \<Rightarrow> string \<Rightarrow> (nat \<Rightarrow> string \<Rightarrow> 'b \<Rightarrow> 'b) option \<Rightarrow> 'b \<Rightarrow> world
     \<Rightarrow> (error + string) \<times> 'b \<times> world" where
  "exec_cmd e cmd cwd out_fn b w =
     (let (lines, res) = shell e (length (shell_log w)) cmd cwd;
          w' = w\<lparr> shell_log := shell_log w @ [(cmd, cwd)] \<rparr>;
          b' = (case out_fn of
                  None \<Rightarrow> b
                | Some f \<Rightarrow> fold (\<lambda>(line_index, line). f line_index line) (enumerate 0 lines) b)
      in (res, b', w'))"

section \<open>Resolving and executing a step\<close>

definition probe_cmd :: "string list \<Rightarrow> string" where
  "probe_cmd packages =
     ''sudo dpkg -l | egrep '' @ [CHR 0x27] @ py_join ''|'' packages @ [CHR 0x27] @ '' | wc -l''"

text \<open>
  \<^verbatim>\<open>AptInstallStep._is_everything_installed\<close>: the count printed by the pipeline is
  read with \<^verbatim>\<open>int\<close> and compared with the number of packages. An exception of the
  shell and the \<^verbatim>\<open>ValueError\<close> of \<^verbatim>\<open>int\<close> go to the caller. The pipeline runs in the
  directory \<^verbatim>\<open>.\<close> and without a line callback.
\<close>

definition is_everything_installed :: "env \<Rightarrow> string list \<Rightarrow> world \<Rightarrow> (error + bool) \<times> world" where
  "is_everything_installed e packages w =
     (case exec_cmd e (probe_cmd packages) ''.'' None () w of
        (Inl err, u, w') \<Rightarrow> (Inl err, w')
      | (Inr out, u, w') \<Rightarrow>
          (case py_int out of
             None \<Rightarrow> (Inl ValueError, w')
           | Some installed \<Rightarrow> (Inr (installed = int (length packages)), w')))"

text \<open>
  \<^verbatim>\<open>get_command\<close>. A \<^verbatim>\<open>BuildStep\<close> returns its command. An \<^verbatim>\<open>AptInstallStep\<close>
  returns the cached \<^verbatim>\<open>_cmd\<close> when it is set and not empty; otherwise it probes,
  chooses, stores the choice in \<^verbatim>\<open>_cmd\<close> and in \<^verbatim>\<open>command\<close>, and returns it.
\<close>

definition get_command :: "env \<Rightarrow> build_step \<Rightarrow> world \<Rightarrow> (error + string) \<times> build_step \<times> world" where
  "get_command e s w =
     (case step_class s of
        AptInstallStep packages install_cmd reconf_cmd cached \<Rightarrow>
          (if cached \<noteq> None \<and> the cached \<noteq> [] then (Inr (the cached), s, w)
           else
             (case is_everything_installed e packages w of
                (Inl err, w') \<Rightarrow> (Inl err, s, w')
              | (Inr installed, w') \<Rightarrow>
                  (let c = (if \<not> installed then install_cmd else reconf_cmd)
                   in (Inr c,
                       s\<lparr> command := c,
                          step_class := AptInstallStep packages install_cmd reconf_cmd (Some c) \<rparr>,
                       w'))))
      | _ \<Rightarrow> (Inr (command s), s, w))"

text \<open>The dictionary \<^verbatim>\<open>{'status': ..., 'output': ...}\<close> that \<^verbatim>\<open>execute\<close> returns.\<close>

record step_outcome =
  so_status :: status
  so_output :: string

text \<open>
  \<^verbatim>\<open>BuildStep.execute\<close>. The \<^verbatim>\<open>try\<close> block resolves the command and runs it with
  the step's timeout; the three \<^verbatim>\<open>except\<close> clauses turn \<^verbatim>\<open>ExecCmdError\<close>, a timeout
  and a cancellation into a status and an output; any other exception leaves the
  method. Then \<^verbatim>\<open>warning_on_fail\<close> is applied.
\<close>

definition BuildStep_execute ::
  "env \<Rightarrow> build_step \<Rightarrow> string \<Rightarrow> (nat \<Rightarrow> string \<Rightarrow> 'b \<Rightarrow> 'b) option \<Rightarrow> 'b \<Rightarrow> world
     \<Rightarrow> (error + step_outcome) \<times> build_step \<times> 'b \<times> world" where
  "BuildStep_execute e s cwd out_fn b w =
     (let (r, s1, b1, w1) =
            (case get_command e s w of
               (Inl err, s', w') \<Rightarrow> (Inl err, s', b, w')
             | (Inr cmd, s', w') \<Rightarrow>
                 (case exec_cmd e cmd cwd out_fn b w' of (res, b', w'') \<Rightarrow> (res, s', b', w'')));
          classified =
            (case r of
               Inr output \<Rightarrow> Inr (Success, output)
             | Inl (ExecCmdError out) \<Rightarrow> Inr (Fail, out)
             | Inl TimeoutError \<Rightarrow>
                 Inr (Exception,
                      command s1 @ '' has timed out in '' @ py_str_int (timeout s1) @ '' seconds'')
             | Inl CancelledError \<Rightarrow> Inr (Cancelled, ''Build cancelled'')
             | Inl err \<Rightarrow> Inl err)
      in case classified of
           Inl err \<Rightarrow> (Inl err, s1, b1, w1)
         | Inr (st, output) \<Rightarrow>
             (let st' = (if warning_on_fail s1 \<and> st \<in> set [Fail, Exception] then Warning else st)
              in (Inr \<lparr> so_status = st', so_output = output \<rparr>, s1, b1, w1)))"

text \<open>
  \<^verbatim>\<open>PythonCreateVenvStep.execute\<close>: when the interpreter of the virtual environment
  exists under \<^verbatim>\<open>cwd\<close> the command is skipped; otherwise the base method runs.
\<close>

definition PythonCreateVenvStep_execute ::
  "env \<Rightarrow> build_step \<Rightarrow> string \<Rightarrow> string \<Rightarrow> (nat \<Rightarrow> string \<Rightarrow> 'b \<Rightarrow> 'b) option \<Rightarrow> 'b \<Rightarrow> world
     \<Rightarrow> (error + step_outcome) \<times> build_step \<times> 'b \<times> world" where
  "PythonCreateVenvStep_execute e s venv_dir cwd out_fn b w =
     (let pyexec = os_path_join venv_dir (os_path_join ''bin'' ''python'')
      in if path_exists e (length (shell_log w)) (os_path_join cwd pyexec)
         then (Inr \<lparr> so_status = Success, so_output = ''venv exists. Skipping...'' \<rparr>, s, b, w)
         else BuildStep_execute e s cwd out_fn b w)"

text \<open>\<^verbatim>\<open>step.execute(...)\<close> as the builder calls it: the method of the step's class.\<close>

definition execute ::
  "env \<Rightarrow> build_step \<Rightarrow> string \<Rightarrow> (nat \<Rightarrow> string \<Rightarrow> 'b \<Rightarrow> 'b) option \<Rightarrow> 'b \<Rightarrow> world
     \<Rightarrow> (error + step_outcome) \<times> build_step \<times> 'b \<times> world" where
  "execute e s cwd out_fn b w =
     (case step_class s of
        PythonCreateVenvStep data_dir venv_dir pyversion \<Rightarrow>
          PythonCreateVenvStep_execute e s venv_dir cwd out_fn b w
      | _ \<Rightarrow> BuildStep_execute e s cwd out_fn b w)"

section \<open>Plugins\<close>

text \<open>
  Operations on configuration dictionaries: \<^verbatim>\<open>d[k]\<close> (\<open>None\<close> is \<^verbatim>\<open>KeyError\<close>),
  \<^verbatim>\<open>del d[k]\<close>, the truth value of a configuration value, and the check that a
  call \<^verbatim>\<open>f(**d)\<close> passes only parameters that \<^verbatim>\<open>f\<close> has.
\<close>

definition dict_get :: "pdict \<Rightarrow> string \<Rightarrow> pyval option" where
  "dict_get d k = map_of d k"

definition dict_del :: "string \<Rightarrow> pdict \<Rightarrow> pdict" where
  "dict_del k d = filter (\<lambda>kv. fst kv \<noteq> k) d"

fun truthy :: "pyval \<Rightarrow> bool" where
  "truthy PNone = False"
| "truthy (PBool b) = b"
| "truthy (PInt i) = (i \<noteq> 0)"
| "truthy (PStr s) = (s \<noteq> [])"
| "truthy (PStrList l) = (l \<noteq> [])"

definition keys_within :: "pdict \<Rightarrow> string list \<Rightarrow> bool" where
  "keys_within d params = list_all (\<lambda>kv. fst kv \<in> set params) d"

text \<open>
  The plugins of \<^verbatim>\<open>plugins.py\<close> with the attributes their constructors store:
  \<^verbatim>\<open>PythonVenvPlugin(pyversion, requirements_file, remove_env, extra_indexes)\<close> and
  \<^verbatim>\<open>AptInstallPlugin(packages)\<close> (its \<^verbatim>\<open>timeout\<close> parameter is accepted and not
  stored). A constructor called with a parameter it does not have, or without a
  required one, raises \<^verbatim>\<open>TypeError\<close>. The configuration schema types the values
  (\<^verbatim>\<open>pyversion\<close> and \<^verbatim>\<open>requirements_file\<close> strings, \<^verbatim>\<open>extra_indexes\<close> and
  \<^verbatim>\<open>packages\<close> lists of strings); the model answers a value of another type with
  \<^verbatim>\<open>TypeError\<close> as well.
\<close>

datatype plugin =
    PythonVenvPlugin string string bool "string list"
  | AptInstallPlugin "string list"

definition PythonVenvPlugin_init :: "pdict \<Rightarrow> error + plugin" where
  "PythonVenvPlugin_init d =
     (if \<not> keys_within d [''pyversion'', ''requirements_file'', ''remove_env'', ''extra_indexes'']
      then Inl TypeError
      else
        (case dict_get d ''pyversion'' of
           Some (PStr pyversion) \<Rightarrow>
             (case (case dict_get d ''requirements_file'' of
                      None \<Rightarrow> Some ''requirements.txt''
                    | Some (PStr r) \<Rightarrow> Some r
                    | Some _ \<Rightarrow> None) of
                None \<Rightarrow> Inl TypeError
              | Some requirements_file \<Rightarrow>
                  (let remove_env = (case dict_get d ''remove_env'' of None \<Rightarrow> False | Some v \<Rightarrow> truthy v)
                   in case dict_get d ''extra_indexes'' of
                        None \<Rightarrow> Inr (PythonVenvPlugin pyversion requirements_file remove_env [])
                      | Some (PStrList l) \<Rightarrow> Inr (PythonVenvPlugin pyversion requirements_file remove_env l)
                      | Some v \<Rightarrow>
                          if truthy v then Inl TypeError
                          else Inr (PythonVenvPlugin pyversion requirements_file remove_env [])))
         | _ \<Rightarrow> Inl TypeError))"

definition AptInstallPlugin_init :: "pdict \<Rightarrow> error + plugin" where
  "AptInstallPlugin_init d =
     (if \<not> keys_within d [''packages'', ''timeout''] then Inl TypeError
      else
        (case dict_get d ''packages'' of
           Some (PStrList packages) \<Rightarrow> Inr (AptInstallPlugin packages)
         | _ \<Rightarrow> Inl TypeError))"

text \<open>\<^verbatim>\<open>plugin_class(**pdict)\<close>.\<close>

fun plugin_init :: "plugin_class \<Rightarrow> pdict \<Rightarrow> error + plugin" where
  "plugin_init PythonVenvPluginClass d = PythonVenvPlugin_init d"
| "plugin_init AptInstallPluginClass d = AptInstallPlugin_init d"

fun plugin_name :: "plugin \<Rightarrow> string" where
  "plugin_name (PythonVenvPlugin pyversion requirements_file remove_env extra_indexes) = ''python-venv''"
| "plugin_name (AptInstallPlugin packages) = ''apt-install''"

text \<open>
  \<^verbatim>\<open>SlavePlugin.data_dir\<close>: the plugin's name under \<^verbatim>\<open>settings.PLUGINS_DATA_DIR\<close>, or
  under \<^verbatim>\<open>os.path.join('..', '.')\<close> when the setting is missing. (The property caches
  its value; the value does not change.) \<^verbatim>\<open>PythonVenvPlugin.venv_dir\<close> follows.
\<close>

definition data_dir :: "env \<Rightarrow> plugin \<Rightarrow> string" where
  "data_dir e p =
     os_path_join
       (case PLUGINS_DATA_DIR e of Some d \<Rightarrow> d | None \<Rightarrow> os_path_join ''..'' ''.'')
       (plugin_name p)"

definition venv_dir :: "env \<Rightarrow> plugin \<Rightarrow> string \<Rightarrow> string" where
  "venv_dir e p pyversion = os_path_join (data_dir e p) (''venv-'' @ py_remove_sep pyversion)"

fun get_steps_before :: "env \<Rightarrow> plugin \<Rightarrow> build_step list" where
  "get_steps_before e (PythonVenvPlugin pyversion requirements_file remove_env extra_indexes) =
     (let p = PythonVenvPlugin pyversion requirements_file remove_env extra_indexes;
          create_env = PythonCreateVenvStep_init (data_dir e p) (venv_dir e p pyversion) pyversion;
          extra = concat (map (\<lambda>i. ''--extra-index-url='' @ i @ '' '') extra_indexes);
          install_deps =
            BuildStep_init ''install dependencies using pip''
              (''pip'' @ '' install -r '' @ requirements_file @ '' '' @ extra) False 3600 True
      in [create_env, install_deps])"
| "get_steps_before e (AptInstallPlugin packages) =
     [AptUpdateStep_init 600, AptInstallStep_init packages 600]"

fun get_steps_after :: "env \<Rightarrow> plugin \<Rightarrow> build_step list" where
  "get_steps_after e (PythonVenvPlugin pyversion requirements_file remove_env extra_indexes) =
     (let p = PythonVenvPlugin pyversion requirements_file remove_env extra_indexes
      in if remove_env
         then [BuildStep_init ''remove venv'' (''rm -rf '' @ venv_dir e p pyversion) False 3600 False]
         else [])"
| "get_steps_after e (AptInstallPlugin packages) = []"

section \<open>The builder\<close>

text \<open>
  Methods and attributes whose names begin with an underscore in the source
  (\<^verbatim>\<open>_load_plugins\<close>, \<^verbatim>\<open>_get_steps\<close>, \<^verbatim>\<open>_do_build\<close>, ...) are written without it.

  The builder configuration: a dictionary with the keys \<^verbatim>\<open>name\<close>, \<^verbatim>\<open>steps\<close> and
  \<^verbatim>\<open>plugins\<close>, each of which may be missing. A step is a string or a dictionary of
  the parameters of \<^verbatim>\<open>BuildStep\<close>; a plugin is a dictionary.
\<close>

datatype step_conf = StepStr string | StepDict pdict

record builder_conf =
  conf_name :: "string option"
  conf_steps :: "step_conf list option"
  conf_plugins :: "pdict list option"

text \<open>
  \<^verbatim>\<open>BuildStep(**sdict)\<close>. \<^verbatim>\<open>name\<close> and \<^verbatim>\<open>command\<close> are required; a command that is
  not a string has no \<^verbatim>\<open>strip\<close>. The flags are read by their truth value. The model
  takes a string for \<^verbatim>\<open>name\<close> and an integer for \<^verbatim>\<open>timeout\<close>.
\<close>

definition BuildStep_kwargs :: "pdict \<Rightarrow> error + build_step" where
  "BuildStep_kwargs d =
     (if \<not> keys_within d [''name'', ''command'', ''warning_on_fail'', ''timeout'', ''stop_on_fail'']
      then Inl TypeError
      else
        (case (dict_get d ''name'', dict_get d ''command'') of
           (Some (PStr nm), Some (PStr cmd)) \<Rightarrow>
             (let wof = (case dict_get d ''warning_on_fail'' of None \<Rightarrow> False | Some v \<Rightarrow> truthy v);
                  sof = (case dict_get d ''stop_on_fail'' of None \<Rightarrow> False | Some v \<Rightarrow> truthy v)
              in case dict_get d ''timeout'' of
                   None \<Rightarrow> Inr (BuildStep_init nm cmd wof 3600 sof)
                 | Some (PInt tmo) \<Rightarrow> Inr (BuildStep_init nm cmd wof tmo sof)
                 | Some _ \<Rightarrow> Inl TypeError)
         | (Some (PStr nm), Some _) \<Rightarrow> Inl AttributeError
         | _ \<Rightarrow> Inl TypeError))"

text \<open>The messages a builder sends to its manager. Wall-clock fields are left out.\<close>

record step_info =
  si_status :: status
  si_cmd :: string
  si_name :: string
  si_index :: nat
  si_output :: string
  si_uuid :: string
  si_last_step_status :: "status option"

record build_info =
  bi_steps :: "step_info list"
  bi_status :: "status option"
  bi_total_steps :: "nat option"

datatype info =
    BuildInfo build_info
  | StepInfo step_info
  | StepOutputInfo string nat string

text \<open>
  The builder object. \<open>manager\<close> is the list of messages the manager has received
  through \<^verbatim>\<open>send_info\<close>, oldest first. \<^verbatim>\<open>STEP_OUTPUT_BUFF_LEN\<close> is a class attribute,
  0 in \<^verbatim>\<open>Builder\<close>. The fields \<open>step_output_buff\<close>,
  \<open>current_step_output_index\<close> and \<open>current_step_output_buff_len\<close> carry a leading
  underscore in the source.
\<close>

record builder =
  manager :: "info list"
  conf :: builder_conf
  builder_name :: string
  build_uuid :: "string option"
  workdir :: string
  plugins :: "plugin list"
  steps :: "build_step list"
  platform :: string
  remove_env :: bool
  envvars :: "(string \<times> string) list"
  step_output_buff :: "string list"
  current_step_output_index :: "nat option"
  current_step_output_buff_len :: nat
  STEP_OUTPUT_BUFF_LEN :: nat

text \<open>
  \<^verbatim>\<open>Builder._load_plugins\<close>, as a loop over the plugin dictionaries. The dictionaries
  are objects of the configuration: \<^verbatim>\<open>del pdict['name']\<close> changes the configuration
  itself, so the loop returns the dictionaries as it leaves them, also when it raises.
  Only \<^verbatim>\<open>KeyError\<close> is caught and replaced by \<^verbatim>\<open>BadPluginConfig\<close>.
\<close>

fun load_plugins_loop :: "env \<Rightarrow> pdict list \<Rightarrow> (error + plugin list) \<times> pdict list" where
  "load_plugins_loop e [] = (Inr [], [])"
| "load_plugins_loop e (pdict # rest) =
     (case (case dict_get pdict ''name'' of
              None \<Rightarrow> Inl KeyError
            | Some nm \<Rightarrow> get_plugin e nm) of
        Inl KeyError \<Rightarrow> (Inl (BadPluginConfig pdict), pdict # rest)
      | Inl err \<Rightarrow> (Inl err, pdict # rest)
      | Inr plugin_class \<Rightarrow>
          (let pdict' = dict_del ''name'' pdict
           in case plugin_init plugin_class pdict' of
                Inl err \<Rightarrow> (Inl err, pdict' # rest)
              | Inr plugin \<Rightarrow>
                  (case load_plugins_loop e rest of
                     (Inl err, rest') \<Rightarrow> (Inl err, pdict' # rest')
                   | (Inr plist, rest') \<Rightarrow> (Inr (plugin # plist), pdict' # rest'))))"

definition load_plugins :: "env \<Rightarrow> builder_conf \<Rightarrow> (error + plugin list) \<times> builder_conf" where
  "load_plugins e c =
     (case conf_plugins c of
        None \<Rightarrow> (Inr [], c)
      | Some plugins_config \<Rightarrow>
          (case load_plugins_loop e plugins_config of
             (r, plugins_config') \<Rightarrow> (r, c\<lparr> conf_plugins := Some plugins_config' \<rparr>)))"

text \<open>\<^verbatim>\<open>Builder._get_steps\<close>: the steps of the plugins around the configured steps.\<close>

fun user_steps :: "step_conf list \<Rightarrow> error + build_step list" where
  "user_steps [] = Inr []"
| "user_steps (sdict # rest) =
     (case (case sdict of
              StepStr s \<Rightarrow> BuildStep_kwargs [(''name'', PStr s), (''command'', PStr s)]
            | StepDict d \<Rightarrow> BuildStep_kwargs d) of
        Inl err \<Rightarrow> Inl err
      | Inr step \<Rightarrow>
          (case user_steps rest of
             Inl err \<Rightarrow> Inl err
           | Inr slist \<Rightarrow> Inr (step # slist)))"

definition get_steps :: "env \<Rightarrow> builder_conf \<Rightarrow> plugin list \<Rightarrow> error + build_step list" where
  "get_steps e c plist =
     (let plugin_before = concat (map (get_steps_before e) plist);
          plugin_after = concat (map (get_steps_after e) plist)
      in case conf_steps c of
           None \<Rightarrow> Inl KeyError
         | Some sdicts \<Rightarrow>
             (case user_steps sdicts of
                Inl err \<Rightarrow> Inl err
              | Inr slist \<Rightarrow> Inr (plugin_before @ slist @ plugin_after)))"

text \<open>
  \<^verbatim>\<open>Builder.__init__(manager, bconf, workdir, platorm, remove_env, **envvars)\<close>. The
  configuration is kept, not copied; the second component of the result is the
  caller's configuration object after the call.
\<close>

definition Builder_init ::
  "env \<Rightarrow> info list \<Rightarrow> builder_conf \<Rightarrow> string \<Rightarrow> string \<Rightarrow> bool \<Rightarrow> (string \<times> string) list
     \<Rightarrow> (error + builder) \<times> builder_conf" where
  "Builder_init e mgr bconf wdir plat rm_env evars =
     (case conf_name bconf of
        None \<Rightarrow> (Inl KeyError, bconf)
      | Some nm \<Rightarrow>
          (case load_plugins e bconf of
             (Inl err, bconf') \<Rightarrow> (Inl err, bconf')
           | (Inr plist, bconf') \<Rightarrow>
               (case get_steps e bconf' plist of
                  Inl err \<Rightarrow> (Inl err, bconf')
                | Inr slist \<Rightarrow>
                    (Inr \<lparr> manager = mgr, conf = bconf', builder_name = nm, build_uuid = None,
                           workdir = wdir, plugins = plist, steps = slist, platform = plat,
                           remove_env = rm_env, envvars = evars, step_output_buff = [],
                           current_step_output_index = None, current_step_output_buff_len = 0,
                           STEP_OUTPUT_BUFF_LEN = 0 \<rparr>,
                     bconf'))))"

section \<open>Running a build\<close>

text \<open>
  Of \<^verbatim>\<open>_do_build\<close> the model leaves out what no message status, index or output
  depends on: logging, the wall-clock fields of the messages (\<^verbatim>\<open>started\<close>,
  \<^verbatim>\<open>finished\<close>, \<^verbatim>\<open>total_time\<close>, \<^verbatim>\<open>last_step_finished\<close>), the registration of the
  running task with the manager, and the environment variables, which only reach the
  shell. A cancellation or a timeout of the task is an outcome of the shell call.
\<close>

text \<open>\<^verbatim>\<open>await self.manager.send_info(msg)\<close>: the manager receives the message.\<close>

definition send_info :: "info \<Rightarrow> builder \<Rightarrow> builder" where
  "send_info msg b = b\<lparr> manager := manager b @ [msg] \<rparr>"

definition clear_step_output_buff :: "builder \<Rightarrow> builder" where
  "clear_step_output_buff b =
     b\<lparr> step_output_buff := [], current_step_output_index := None,
        current_step_output_buff_len := 0 \<rparr>"

text \<open>
  \<^verbatim>\<open>Builder._flush_step_output_buff(step_uuid)\<close>: the index goes from \<^verbatim>\<open>None\<close> to 0 or
  up by one, a \<^verbatim>\<open>step_output_info\<close> message with
  \<^verbatim>\<open>''.join(self._step_output_buff).strip('\n')\<close> is sent, and the buffer is emptied.
\<close>

definition flush_step_output_buff :: "string \<Rightarrow> builder \<Rightarrow> builder" where
  "flush_step_output_buff step_uuid b =
     (let output_index = (case current_step_output_index b of None \<Rightarrow> 0 | Some i \<Rightarrow> i + 1);
          b1 = b\<lparr> current_step_output_index := Some output_index \<rparr>;
          msg = StepOutputInfo step_uuid output_index
                  (py_strip [CHR 0x0A] (concat (step_output_buff b1)));
          b2 = send_info msg b1
      in b2\<lparr> step_output_buff := [], current_step_output_buff_len := 0 \<rparr>)"

text \<open>
  \<^verbatim>\<open>Builder._send_step_output_info(step_info, line_index, line)\<close>, the line callback of
  a step: the line is buffered, and the buffer is flushed once its length exceeds
  \<^verbatim>\<open>STEP_OUTPUT_BUFF_LEN\<close>.
\<close>

definition send_step_output_info :: "step_info \<Rightarrow> nat \<Rightarrow> string \<Rightarrow> builder \<Rightarrow> builder" where
  "send_step_output_info sinfo line_index line b =
     (let b1 = b\<lparr> step_output_buff := step_output_buff b @ [line],
                   current_step_output_buff_len := current_step_output_buff_len b + length line \<rparr>
      in if \<not> current_step_output_buff_len b1 > STEP_OUTPUT_BUFF_LEN b1 then b1
         else flush_step_output_buff (si_uuid sinfo) b1)"

definition get_tmp_dir :: "env \<Rightarrow> builder \<Rightarrow> string" where
  "get_tmp_dir e b = abspath e (workdir b) @ ''-'' @ builder_name b"

text \<open>
  The local variables of \<^verbatim>\<open>Builder._do_build\<close> that live across the iterations of
  its loop, with the builder and the world.
\<close>

record build_state =
  bs_builder :: builder
  bs_world :: world
  build_status :: "status option"
  last_step_status :: "status option"
  last_step_output :: "step_outcome option"
  build_info_steps :: "step_info list"

text \<open>
  One iteration of the loop of \<^verbatim>\<open>_do_build\<close>, for the step at \<open>index\<close>. The result
  carries the flag of the two \<^verbatim>\<open>break\<close> statements. The step is an object in
  \<^verbatim>\<open>self.steps\<close>: what \<^verbatim>\<open>get_command\<close> stores on it is written back there. An
  exception of \<^verbatim>\<open>get_command\<close> or of \<^verbatim>\<open>execute\<close> leaves the build.
\<close>

definition do_build_step :: "env \<Rightarrow> nat \<Rightarrow> build_step \<Rightarrow> build_state \<Rightarrow> error + (build_state \<times> bool)" where
  "do_build_step e index step st =
     (let b1 = clear_step_output_buff (bs_builder st)
      in case get_command e step (bs_world st) of
           (Inl err, step1, w1) \<Rightarrow> Inl err
         | (Inr cmd, step1, w1) \<Rightarrow>
             (let b2 = b1\<lparr> steps := (steps b1)[index := step1] \<rparr>;
                  sinfo = \<lparr> si_status = Running, si_cmd = cmd, si_name = name step1,
                            si_index = index, si_output = '''',
                            si_uuid = uuid4 e (uuids_drawn w1),
                            si_last_step_status = last_step_status st \<rparr>;
                  w2 = w1\<lparr> uuids_drawn := Suc (uuids_drawn w1) \<rparr>;
                  b3 = send_info (StepInfo sinfo) b2;
                  out_fn = send_step_output_info sinfo
              in case execute e step1 (get_tmp_dir e b3) (Some out_fn) b3 w2 of
                   (Inl err, step2, b4, w3) \<Rightarrow> Inl err
                 | (Inr step_exec_output, step2, b4, w3) \<Rightarrow>
                     (let b5 = b4\<lparr> steps := (steps b4)[index := step2] \<rparr>;
                          sinfo' = sinfo\<lparr> si_status := so_status step_exec_output,
                                          si_output := so_output step_exec_output \<rparr>;
                          b6 = flush_step_output_buff (si_uuid sinfo') b5;
                          stat = si_status sinfo';
                          b7 = send_info (StepInfo sinfo') b6;
                          build_status' =
                            (if build_status st = None \<or> build_status st = Some Success
                             then Some stat else build_status st);
                          st' = \<lparr> bs_builder = b7, bs_world = w3, build_status = build_status',
                                  last_step_status = Some stat,
                                  last_step_output = Some step_exec_output,
                                  build_info_steps = build_info_steps st @ [sinfo'] \<rparr>
                      in Inr (st',
                              stat = Cancelled
                              \<or> (stat \<in> set [Fail, Exception] \<and> stop_on_fail step2)))))"

fun build_loop :: "env \<Rightarrow> nat \<Rightarrow> build_step list \<Rightarrow> build_state \<Rightarrow> error + build_state" where
  "build_loop e index [] st = Inr st"
| "build_loop e index (step # rest) st =
     (case do_build_step e index step st of
        Inl err \<Rightarrow> Inl err
      | Inr (st', stop) \<Rightarrow> if stop then Inr st' else build_loop e (Suc index) rest st')"

text \<open>
  \<^verbatim>\<open>Builder._do_build\<close>: the first \<^verbatim>\<open>build_info\<close> is sent, the loop runs over
  \<^verbatim>\<open>self.steps\<close>, and the final \<^verbatim>\<open>build_info\<close> is returned with the aggregated status
  (\<open>None\<close> when no step ran) and the number of steps.
\<close>

definition do_build :: "env \<Rightarrow> builder \<Rightarrow> world \<Rightarrow> error + (build_info \<times> builder \<times> world)" where
  "do_build e b w =
     (let binfo = \<lparr> bi_steps = [], bi_status = Some Running, bi_total_steps = None \<rparr>;
          b1 = send_info (BuildInfo binfo) b;
          st0 = \<lparr> bs_builder = b1, bs_world = w, build_status = None, last_step_status = None,
                  last_step_output = None, build_info_steps = [] \<rparr>
      in case build_loop e 0 (steps b1) st0 of
           Inl err \<Rightarrow> Inl err
         | Inr st \<Rightarrow>
             Inr (\<lparr> bi_steps = build_info_steps st, bi_status = build_status st,
                    bi_total_steps = Some (length (steps (bs_builder st))) \<rparr>,
                  bs_builder st, bs_world st))"

section \<open>Reading a trace of messages\<close>

text \<open>
  The index that the next \<^verbatim>\<open>step_output_info\<close> message of the current step gets, and
  the messages that carry the outputs \<open>outs\<close> for the step \<open>u\<close> with the indexes
  \<open>n\<close>, \<open>n + 1\<close>, ...
\<close>

definition next_index :: "builder \<Rightarrow> nat" where
  "next_index b = (case current_step_output_index b of None \<Rightarrow> 0 | Some i \<Rightarrow> Suc i)"

definition output_msgs :: "string \<Rightarrow> nat \<Rightarrow> string list \<Rightarrow> info list" where
  "output_msgs u n outs = map (\<lambda>(k, out). StepOutputInfo u k out) (enumerate n outs)"

text \<open>
  Reading a trace of messages. \<open>leading_output_indexes ms\<close> are the indexes of the
  \<^verbatim>\<open>step_output_info\<close> messages of \<open>ms\<close> before the next \<^verbatim>\<open>step_info\<close> with status
  \<^verbatim>\<open>running\<close>; \<open>output_indexes ms\<close> lists, for every \<^verbatim>\<open>step_info\<close> with status
  \<^verbatim>\<open>running\<close> in \<open>ms\<close>, the indexes of the \<^verbatim>\<open>step_output_info\<close> messages between
  it and the next one: the output indexes of each step started, in emission order.
\<close>

fun leading_output_indexes :: "info list \<Rightarrow> nat list" where
  "leading_output_indexes [] = []"
| "leading_output_indexes (StepOutputInfo u k out # ms) = k # leading_output_indexes ms"
| "leading_output_indexes (StepInfo si # ms) =
     (if si_status si = Running then [] else leading_output_indexes ms)"
| "leading_output_indexes (BuildInfo bi # ms) = leading_output_indexes ms"

fun output_indexes :: "info list \<Rightarrow> nat list list" where
  "output_indexes [] = []"
| "output_indexes (StepInfo si # ms) =
     (if si_status si = Running then leading_output_indexes ms # output_indexes ms
      else output_indexes ms)"
| "output_indexes (StepOutputInfo u k out # ms) = output_indexes ms"
| "output_indexes (BuildInfo bi # ms) = output_indexes ms"

text \<open>The \<^verbatim>\<open>step_output_info\<close> messages of a trace.\<close>

fun is_step_output_info :: "info \<Rightarrow> bool" where
  "is_step_output_info (StepOutputInfo u k out) = True"
| "is_step_output_info (StepInfo si) = False"
| "is_step_output_info (BuildInfo bi) = False"

text \<open>The condition of the two \<^verbatim>\<open>break\<close> statements of the build loop.\<close>

definition breaks_after :: "step_info \<Rightarrow> build_step \<Rightarrow> bool" where
  "breaks_after sf step =
     (si_status sf = Cancelled
      \<or> (si_status sf \<in> set [Fail, Exception] \<and> stop_on_fail step))"

section \<open>Aggregated status and message output, in words\<close>

text \<open>
  The first status of a list that is not \<^verbatim>\<open>success\<close>; \<^verbatim>\<open>success\<close> when there is none
  and the list is not empty; \<open>None\<close> for the empty list.
\<close>

definition first_non_success :: "status list \<Rightarrow> status option" where
  "first_non_success sts =
     (case find (\<lambda>s. s \<noteq> Success) sts of
        Some s \<Rightarrow> Some s
      | None \<Rightarrow> if sts = [] then None else Some Success)"

text \<open>
  The aggregation as the specification words it: \<^verbatim>\<open>cancelled\<close> if any step was
  cancelled, otherwise the worst status seen in the order
  \<^verbatim>\<open>success < warning < fail < exception\<close>.
\<close>

fun status_rank :: "status \<Rightarrow> nat" where
  "status_rank Success = 0"
| "status_rank Warning = 1"
| "status_rank Fail = 2"
| "status_rank Exception = 3"
| "status_rank Running = 0"
| "status_rank Cancelled = 0"

definition spec_worst_status :: "status list \<Rightarrow> status" where
  "spec_worst_status sts =
     (if Cancelled \<in> set sts then Cancelled
      else fold (\<lambda>s worst. if status_rank worst < status_rank s then s else worst) sts Success)"

text \<open>
  The output of a message as the specification words it: the buffered lines joined by
  newline, with leading and trailing newlines stripped.
\<close>

definition spec_output :: "string list \<Rightarrow> string" where
  "spec_output buff = py_strip [CHR 0x0A] (py_join [CHR 0x0A] buff)"

section \<open>Example inputs\<close>

text \<open>
  Concrete environments, worlds and configurations on which the theorems below are
  evaluated. \<open>ex_env sh\<close> is an environment whose shell behaves as \<open>sh\<close> and in which
  the file \<^verbatim>\<open>/build/venv/bin/python\<close> exists.
\<close>

definition ex_env :: "(nat \<Rightarrow> string \<Rightarrow> string \<Rightarrow> string list \<times> (error + string)) \<Rightarrow> env" where
  "ex_env sh =
     \<lparr> shell = sh, path_exists = (\<lambda>n p. p = ''/build/venv/bin/python''),
       uuid4 = (\<lambda>n. ''uuid-'' @ str_nat n), PLUGINS_DATA_DIR = None,
       abspath = (\<lambda>p. ''/'' @ p),
       get_plugin = (\<lambda>v. if v = PStr ''python-venv'' then Inr PythonVenvPluginClass
                           else if v = PStr ''apt-install'' then Inr AptInstallPluginClass
                           else Inl PluginNotFound) \<rparr>"

definition ex_world :: world where
  "ex_world = \<lparr> shell_log = [], uuids_drawn = 0 \<rparr>"

definition ex_conf :: builder_conf where
  "ex_conf =
     \<lparr> conf_name = Some ''b1'',
       conf_steps = Some [StepStr ''echo hi''],
       conf_plugins = Some [[(''name'', PStr ''apt-install''), (''packages'', PStrList [''git''])]] \<rparr>"

definition ex_plain_conf :: builder_conf where
  "ex_plain_conf = \<lparr> conf_name = Some ''b1'', conf_steps = Some [], conf_plugins = None \<rparr>"

text \<open>
  A builder named \<^verbatim>\<open>b1\<close> in the state that \<^verbatim>\<open>Builder.__init__\<close> leaves, for a
  configuration and the steps made from it.
\<close>

definition ex_builder :: "builder_conf \<Rightarrow> build_step list \<Rightarrow> builder" where
  "ex_builder c slist =
     \<lparr> manager = [], conf = c, builder_name = ''b1'', build_uuid = None, workdir = ''src'',
       plugins = [], steps = slist, platform = ''linux-generic'', remove_env = True,
       envvars = [], step_output_buff = [], current_step_output_index = None,
       current_step_output_buff_len = 0, STEP_OUTPUT_BUFF_LEN = 0 \<rparr>"

definition ex_shell_fail :: "nat \<Rightarrow> string \<Rightarrow> string \<Rightarrow> string list \<times> (error + string)" where
  "ex_shell_fail n cmd cwd = ([''oops''], Inl (ExecCmdError ''oops''))"

text \<open>
  The configuration \<^verbatim>\<open>{'name': 'b1', 'steps': [{'name': 'a', 'command': 'false',
  'warning_on_fail': True}, 'false']}\<close> and the steps of its builder.
\<close>

definition ex_two_conf :: builder_conf where
  "ex_two_conf =
     \<lparr> conf_name = Some ''b1'',
       conf_steps = Some [StepDict [(''name'', PStr ''a''), (''command'', PStr ''false''),
                                    (''warning_on_fail'', PBool True)],
                          StepStr ''false''],
       conf_plugins = None \<rparr>"

definition ex_two_steps :: "build_step list" where
  "ex_two_steps =
     [BuildStep_init ''a'' ''false'' True 3600 False,
      BuildStep_init ''false'' ''false'' False 3600 False]"

definition ex_stop_steps :: "build_step list" where
  "ex_stop_steps =
     [BuildStep_init ''a'' ''false'' False 3600 True,
      BuildStep_init ''b'' ''echo skipped'' False 3600 False]"

definition ex_shell_lines :: "nat \<Rightarrow> string \<Rightarrow> string \<Rightarrow> string list \<times> (error + string)" where
  "ex_shell_lines n cmd cwd = ([''hi'' @ [CHR 0x0A], ''there'' @ [CHR 0x0A]], Inr (''hi'' @ [CHR 0x0A] @ ''there''))"

definition ex_shell_silent :: "nat \<Rightarrow> string \<Rightarrow> string \<Rightarrow> string list \<times> (error + string)" where
  "ex_shell_silent n cmd cwd = ([], Inr '''')"

definition ex_one_step :: "build_step list" where
  "ex_one_step = [BuildStep_init ''echo'' ''echo hi; echo there'' False 3600 False]"

definition ex_step_info :: step_info where
  "ex_step_info =
     \<lparr> si_status = Running, si_cmd = ''make'', si_name = ''make'', si_index = 0,
       si_output = '''', si_uuid = ''uuid-0'', si_last_step_status = None \<rparr>"

definition ex_silent_step :: build_step where
  "ex_silent_step = BuildStep_init ''quiet'' ''true'' False 3600 False"

definition ex_state :: build_state where
  "ex_state =
     \<lparr> bs_builder = ex_builder ex_plain_conf [ex_silent_step], bs_world = ex_world, build_status = None,
       last_step_status = None, last_step_output = None, build_info_steps = [] \<rparr>"

section \<open>Properties\<close>

subsection \<open>The command of a step\<close>

lemma dropWhile_rev_dropWhile_Nil:
  "dropWhile P (rev (dropWhile P s)) = [] \<longleftrightarrow> dropWhile P s = []"
proof
  assume a: "dropWhile P (rev (dropWhile P s)) = []"
  show "dropWhile P s = []"
  proof (rule ccontr)
    assume ne: "dropWhile P s \<noteq> []"
    then have "\<not> P (hd (dropWhile P s))" by (rule hd_dropWhile)
    moreover have "hd (dropWhile P s) \<in> set (rev (dropWhile P s))" using ne by simp
    moreover have "\<forall>x \<in> set (rev (dropWhile P s)). P x"
      using a by (simp only: dropWhile_eq_Nil_conv)
    ultimately show False by blast
  qed
next
  assume e: "dropWhile P s = []"
  show "dropWhile P (rev (dropWhile P s)) = []" unfolding e by simp
qed

lemma last_dropWhile_same: "dropWhile P ys \<noteq> [] \<Longrightarrow> last (dropWhile P ys) = last ys"
proof -
  assume ne: "dropWhile P ys \<noteq> []"
  have "last (takeWhile P ys @ dropWhile P ys) = last (dropWhile P ys)"
    using ne by (rule last_appendR)
  then show ?thesis by simp
qed

lemma py_strip_no_leading: "py_strip chars s \<noteq> [] \<Longrightarrow> hd (py_strip chars s) \<notin> set chars"
proof -
  let ?P = "\<lambda>c. c \<in> set chars"
  let ?t = "dropWhile ?P s"
  let ?u = "dropWhile ?P (rev ?t)"
  assume ne: "py_strip chars s \<noteq> []"
  then have u: "?u \<noteq> []" by (simp add: py_strip_def)
  then have t: "?t \<noteq> []" by (simp only: dropWhile_rev_dropWhile_Nil not_False_eq_True)
  have "hd (rev ?u) = last ?u" using u by (simp add: hd_rev)
  also have "\<dots> = last (rev ?t)" using u by (rule last_dropWhile_same)
  also have "\<dots> = hd ?t" using t by (simp add: last_rev)
  finally have "hd (py_strip chars s) = hd ?t" by (simp add: py_strip_def)
  moreover have "\<not> ?P (hd ?t)" using t by (rule hd_dropWhile)
  ultimately show ?thesis by simp
qed

lemma py_strip_no_trailing: "py_strip chars s \<noteq> [] \<Longrightarrow> last (py_strip chars s) \<notin> set chars"
proof -
  let ?P = "\<lambda>c. c \<in> set chars"
  let ?u = "dropWhile ?P (rev (dropWhile ?P s))"
  assume ne: "py_strip chars s \<noteq> []"
  then have u: "?u \<noteq> []" by (simp add: py_strip_def)
  have "last (rev ?u) = hd ?u" using u by (simp add: last_rev)
  moreover have "\<not> ?P (hd ?u)" using u by (rule hd_dropWhile)
  ultimately show ?thesis by (simp add: py_strip_def)
qed

lemma py_strip_empty_iff: "py_strip chars s = [] \<longleftrightarrow> set s \<subseteq> set chars"
proof -
  let ?P = "\<lambda>c. c \<in> set chars"
  have "py_strip chars s = [] \<longleftrightarrow> dropWhile ?P s = []"
    unfolding py_strip_def by (simp only: rev_is_Nil_conv dropWhile_rev_dropWhile_Nil)
  also have "\<dots> \<longleftrightarrow> (\<forall>x \<in> set s. ?P x)" by (rule dropWhile_eq_Nil_conv)
  finally show ?thesis by blast
qed

lemma py_strip_decomp:
  "\<exists>l r. s = l @ py_strip chars s @ r \<and> set l \<subseteq> set chars \<and> set r \<subseteq> set chars"
proof -
  let ?P = "\<lambda>c. c \<in> set chars"
  let ?t = "dropWhile ?P s"
  let ?l = "takeWhile ?P s"
  let ?r = "rev (takeWhile ?P (rev ?t))"
  have "rev (takeWhile ?P (rev ?t) @ dropWhile ?P (rev ?t)) = rev (rev ?t)"
    by (simp only: takeWhile_dropWhile_id)
  then have "rev (dropWhile ?P (rev ?t)) @ ?r = ?t"
    by (simp only: rev_append rev_rev_ident)
  then have t: "?t = py_strip chars s @ ?r" by (simp only: py_strip_def)
  have "s = ?l @ ?t" by simp
  with t have "s = ?l @ py_strip chars s @ ?r" by simp
  moreover have "set ?l \<subseteq> set chars" by (auto dest: set_takeWhileD)
  moreover have "set ?r \<subseteq> set chars" by (auto dest: set_takeWhileD)
  ultimately show ?thesis by blast
qed

text \<open>
  Claim C6, as amended. After construction the command of a \<^verbatim>\<open>BuildStep\<close> is the given
  string without its leading and trailing spaces: the given string is the command with
  spaces only before and after it, a non-empty command neither starts nor ends with a
  space, and the command is empty exactly when the given string consists of spaces only.
  The constructor accepts every string and does not reject the empty command.
\<close>

theorem BuildStep_command_stripped:
  "(\<exists>l r. cmd = l @ command (BuildStep_init nm cmd wof tmo sof) @ r
          \<and> set l \<subseteq> {CHR '' ''} \<and> set r \<subseteq> {CHR '' ''})
   \<and> (command (BuildStep_init nm cmd wof tmo sof) \<noteq> [] \<longrightarrow>
        hd (command (BuildStep_init nm cmd wof tmo sof)) \<noteq> CHR '' '' \<and>
        last (command (BuildStep_init nm cmd wof tmo sof)) \<noteq> CHR '' '')
   \<and> (command (BuildStep_init nm cmd wof tmo sof) = [] \<longleftrightarrow> set cmd \<subseteq> {CHR '' ''})"
proof -
  have c: "command (BuildStep_init nm cmd wof tmo sof) = py_strip '' '' cmd"
    by (simp add: BuildStep_init_def)
  have 1: "\<exists>l r. cmd = l @ py_strip '' '' cmd @ r \<and> set l \<subseteq> {CHR '' ''} \<and> set r \<subseteq> {CHR '' ''}"
    using py_strip_decomp [of cmd "'' ''"] by simp
  have 2: "py_strip '' '' cmd \<noteq> [] \<longrightarrow>
        hd (py_strip '' '' cmd) \<noteq> CHR '' '' \<and> last (py_strip '' '' cmd) \<noteq> CHR '' ''"
    using py_strip_no_leading [of "'' ''" cmd] py_strip_no_trailing [of "'' ''" cmd] by simp
  have 3: "py_strip '' '' cmd = [] \<longleftrightarrow> set cmd \<subseteq> {CHR '' ''}"
    using py_strip_empty_iff [of "'' ''" cmd] by simp
  show ?thesis unfolding c using 1 2 3 by blast
qed

theorem BuildStep_command_stripped_witness:
  "command (BuildStep_init ''test'' '' make test  '' False 3600 False) = ''make test''
   \<and> hd ''make test'' \<noteq> CHR '' '' \<and> last ''make test'' \<noteq> CHR '' ''"
  using BuildStep_command_stripped [of "'' make test  ''" "''test''" False 3600 False]
  by (simp add: BuildStep_init_def py_strip_def)

text \<open>
  The claim as stated (the command is never empty) fails. A command of three spaces is
  accepted and stored as the empty string, by the constructor and for the step
  \<^verbatim>\<open>'   '\<close> of a builder configuration.
\<close>

theorem BuildStep_command_empty_counterexample:
  "command (BuildStep_init ''blank'' ''   '' False 3600 False) = ''''
   \<and> map_sum id (map command) (user_steps [StepStr ''   '']) = Inr ['''']"
  by (simp add: BuildStep_init_def py_strip_def BuildStep_kwargs_def keys_within_def dict_get_def)

subsection \<open>Executing a step\<close>

lemma get_command_base:
  "step_class s = BuildStepBase \<Longrightarrow> get_command e s w = (Inr (command s), s, w)"
  by (simp add: get_command_def)

text \<open>
  Claim C2. \<^verbatim>\<open>BuildStep.execute\<close>, for the command that \<^verbatim>\<open>get_command\<close> resolves and
  what the shell does with it: normal completion gives \<^verbatim>\<open>success\<close> with the command's
  output; \<^verbatim>\<open>ExecCmdError\<close> gives \<^verbatim>\<open>fail\<close> with the output the exception carries; a
  timeout gives \<^verbatim>\<open>exception\<close> with the output
  \<^verbatim>\<open><command> has timed out in <timeout> seconds\<close>; a cancellation gives \<^verbatim>\<open>cancelled\<close>
  with \<^verbatim>\<open>Build cancelled\<close>. With \<^verbatim>\<open>warning_on_fail\<close> the statuses \<^verbatim>\<open>fail\<close> and
  \<^verbatim>\<open>exception\<close> become \<^verbatim>\<open>warning\<close>; \<^verbatim>\<open>cancelled\<close> stays as it is.
\<close>

theorem BuildStep_execute_classifies:
  assumes gc: "get_command e s w = (Inr cmd, s', w')"
    and sh: "shell e (length (shell_log w')) cmd cwd = (lines, res)"
  shows "(\<forall>out. res = Inr out \<longrightarrow>
            fst (BuildStep_execute e s cwd out_fn b w) =
              Inr \<lparr> so_status = Success, so_output = out \<rparr>)
       \<and> (\<forall>out. res = Inl (ExecCmdError out) \<longrightarrow>
            fst (BuildStep_execute e s cwd out_fn b w) =
              Inr \<lparr> so_status = (if warning_on_fail s' then Warning else Fail), so_output = out \<rparr>)
       \<and> (res = Inl TimeoutError \<longrightarrow>
            fst (BuildStep_execute e s cwd out_fn b w) =
              Inr \<lparr> so_status = (if warning_on_fail s' then Warning else Exception),
                    so_output = command s' @ '' has timed out in '' @ py_str_int (timeout s')
                                @ '' seconds'' \<rparr>)
       \<and> (res = Inl CancelledError \<longrightarrow>
            fst (BuildStep_execute e s cwd out_fn b w) =
              Inr \<lparr> so_status = Cancelled, so_output = ''Build cancelled'' \<rparr>)"
  using gc sh by (simp add: BuildStep_execute_def exec_cmd_def)

theorem BuildStep_execute_classifies_witness:
  "fst (BuildStep_execute (ex_env (\<lambda>n cmd cwd. ([''hi''], Inr ''hi'')))
          (BuildStep_init ''s'' ''echo hi'' False 3600 False) ''/build'' None () ex_world)
     = Inr \<lparr> so_status = Success, so_output = ''hi'' \<rparr>
   \<and> fst (BuildStep_execute (ex_env (\<lambda>n cmd cwd. ([''no''], Inl (ExecCmdError ''no''))))
          (BuildStep_init ''s'' ''false'' True 3600 False) ''/build'' None () ex_world)
     = Inr \<lparr> so_status = Warning, so_output = ''no'' \<rparr>
   \<and> fst (BuildStep_execute (ex_env (\<lambda>n cmd cwd. ([], Inl TimeoutError)))
          (BuildStep_init ''s'' ''sleep 10'' False 1 False) ''/build'' None () ex_world)
     = Inr \<lparr> so_status = Exception, so_output = ''sleep 10 has timed out in 1 seconds'' \<rparr>
   \<and> fst (BuildStep_execute (ex_env (\<lambda>n cmd cwd. ([], Inl CancelledError)))
          (BuildStep_init ''s'' ''sleep 10'' True 1 False) ''/build'' None () ex_world)
     = Inr \<lparr> so_status = Cancelled, so_output = ''Build cancelled'' \<rparr>"
proof -
  let ?w = ex_world
  have g: "\<And>e c wof t. get_command e (BuildStep_init ''s'' c wof t False) ?w
            = (Inr (command (BuildStep_init ''s'' c wof t False)), BuildStep_init ''s'' c wof t False, ?w)"
    by (simp add: get_command_def BuildStep_init_def)
  have c1: "command (BuildStep_init ''s'' ''echo hi'' False 3600 False) = ''echo hi''"
    and c2: "command (BuildStep_init ''s'' ''false'' True 3600 False) = ''false''"
    and c3: "command (BuildStep_init ''s'' ''sleep 10'' False 1 False) = ''sleep 10''"
    and c4: "command (BuildStep_init ''s'' ''sleep 10'' True 1 False) = ''sleep 10''"
    by (simp_all add: BuildStep_init_def py_strip_def)
  have t3: "py_str_int (timeout (BuildStep_init ''s'' ''sleep 10'' False 1 False)) = ''1''"
    by (simp add: BuildStep_init_def py_str_int_def str_nat.simps digit_char_def)
  have w: "\<And>c wof t. warning_on_fail (BuildStep_init ''s'' c wof t False) = wof"
    by (simp add: BuildStep_init_def)
  have a: "fst (BuildStep_execute (ex_env (\<lambda>n cmd cwd. ([''hi''], Inr ''hi'')))
          (BuildStep_init ''s'' ''echo hi'' False 3600 False) ''/build'' None () ex_world)
     = Inr \<lparr> so_status = Success, so_output = ''hi'' \<rparr>"
    using BuildStep_execute_classifies [where e = "ex_env (\<lambda>n cmd cwd. ([''hi''], Inr ''hi''))" and s = "BuildStep_init ''s'' ''echo hi'' False 3600 False" and w = ex_world
        and cmd = "command (BuildStep_init ''s'' ''echo hi'' False 3600 False)" and s' = "BuildStep_init ''s'' ''echo hi'' False 3600 False" and w' = ex_world and cwd = "''/build''"
        and lines = "[''hi'']" and res = "Inr ''hi''" and out_fn = None and b = "()"] g
    by (simp add: ex_env_def c1)
  have b: "fst (BuildStep_execute (ex_env (\<lambda>n cmd cwd. ([''no''], Inl (ExecCmdError ''no''))))
          (BuildStep_init ''s'' ''false'' True 3600 False) ''/build'' None () ex_world)
     = Inr \<lparr> so_status = Warning, so_output = ''no'' \<rparr>"
    using BuildStep_execute_classifies [where e = "ex_env (\<lambda>n cmd cwd. ([''no''], Inl (ExecCmdError ''no'')))" and s = "BuildStep_init ''s'' ''false'' True 3600 False" and w = ex_world
        and cmd = "command (BuildStep_init ''s'' ''false'' True 3600 False)" and s' = "BuildStep_init ''s'' ''false'' True 3600 False" and w' = ex_world and cwd = "''/build''"
        and lines = "[''no'']" and res = "Inl (ExecCmdError ''no'')" and out_fn = None and b = "()"] g
    by (simp add: ex_env_def w c2)
  have c: "fst (BuildStep_execute (ex_env (\<lambda>n cmd cwd. ([], Inl TimeoutError)))
          (BuildStep_init ''s'' ''sleep 10'' False 1 False) ''/build'' None () ex_world)
     = Inr \<lparr> so_status = Exception, so_output = ''sleep 10 has timed out in 1 seconds'' \<rparr>"
    using BuildStep_execute_classifies [where e = "ex_env (\<lambda>n cmd cwd. ([], Inl TimeoutError))" and s = "BuildStep_init ''s'' ''sleep 10'' False 1 False" and w = ex_world
        and cmd = "command (BuildStep_init ''s'' ''sleep 10'' False 1 False)" and s' = "BuildStep_init ''s'' ''sleep 10'' False 1 False" and w' = ex_world and cwd = "''/build''"
        and lines = "[]" and res = "Inl TimeoutError" and out_fn = None and b = "()"] g
    by (simp add: ex_env_def w c3 t3)
  have d: "fst (BuildStep_execute (ex_env (\<lambda>n cmd cwd. ([], Inl CancelledError)))
          (BuildStep_init ''s'' ''sleep 10'' True 1 False) ''/build'' None () ex_world)
     = Inr \<lparr> so_status = Cancelled, so_output = ''Build cancelled'' \<rparr>"
    using BuildStep_execute_classifies [where e = "ex_env (\<lambda>n cmd cwd. ([], Inl CancelledError))" and s = "BuildStep_init ''s'' ''sleep 10'' True 1 False" and w = ex_world
        and cmd = "command (BuildStep_init ''s'' ''sleep 10'' True 1 False)" and s' = "BuildStep_init ''s'' ''sleep 10'' True 1 False" and w' = ex_world and cwd = "''/build''"
        and lines = "[]" and res = "Inl CancelledError" and out_fn = None and b = "()"] g
    by (simp add: ex_env_def w c4)
  from a b c d show ?thesis by blast
qed

text \<open>
  Claim C7. When \<^verbatim>\<open>os.path.join(cwd, venv_dir, 'bin', 'python')\<close> exists,
  \<^verbatim>\<open>PythonCreateVenvStep.execute\<close> returns \<^verbatim>\<open>success\<close> with the output
  \<^verbatim>\<open>venv exists. Skipping...\<close> and leaves the step, the caller's state and the world as
  they were: no shell command is run, no line callback is called, and executing the
  step again gives the same result.
\<close>

theorem PythonCreateVenvStep_skips_existing:
  assumes "step_class s = PythonCreateVenvStep ddir vdir pyversion"
    and "path_exists e (length (shell_log w))
           (os_path_join cwd (os_path_join vdir (os_path_join ''bin'' ''python'')))"
  shows "execute e s cwd out_fn b w =
           (Inr \<lparr> so_status = Success, so_output = ''venv exists. Skipping...'' \<rparr>, s, b, w)"
  using assms by (simp add: execute_def PythonCreateVenvStep_execute_def)

theorem PythonCreateVenvStep_skips_existing_witness:
  "execute (ex_env (\<lambda>n cmd cwd. ([], Inl (ExecCmdError ''must not run''))))
     (PythonCreateVenvStep_init ''data'' ''venv'' ''python3'') ''/build'' None () ex_world
   = (Inr \<lparr> so_status = Success, so_output = ''venv exists. Skipping...'' \<rparr>,
      PythonCreateVenvStep_init ''data'' ''venv'' ''python3'', (), ex_world)"
  using PythonCreateVenvStep_skips_existing
    [of "PythonCreateVenvStep_init ''data'' ''venv'' ''python3''" "''data''" "''venv''" "''python3''"
        "ex_env (\<lambda>n cmd cwd. ([], Inl (ExecCmdError ''must not run'')))" ex_world "''/build''" None "()"]
  by (simp add: PythonCreateVenvStep_init_def ex_env_def ex_world_def os_path_join_def os_sep_def)

text \<open>
  Claim C8. The first \<^verbatim>\<open>get_command\<close> of an \<^verbatim>\<open>AptInstallStep\<close> runs the pipeline
  \<^verbatim>\<open>sudo dpkg -l | egrep '<p1>|<p2>|...' | wc -l\<close> once. When the count it prints
  equals the number of packages the command is \<^verbatim>\<open>sudo dpkg-reconfigure <pkgs>\<close>,
  otherwise \<^verbatim>\<open>sudo apt-get install -y <pkgs>\<close>. The choice is stored on the step, and
  every later call returns it from any world without running anything.
\<close>

theorem AptInstallStep_get_command_cached:
  assumes "shell e (length (shell_log w)) (probe_cmd packages) ''.'' = (lines, Inr out)"
    and "py_int out = Some installed"
  shows "case get_command e (AptInstallStep_init packages tmo) w of
           (r, s', w') \<Rightarrow>
             r = Inr (if installed = int (length packages)
                      then ''sudo dpkg-reconfigure '' @ py_join '' '' packages
                      else ''sudo apt-get install -y '' @ py_join '' '' packages)
           \<and> w' = w\<lparr> shell_log := shell_log w @ [(probe_cmd packages, ''.'')] \<rparr>
           \<and> Inr (command s') = r
           \<and> (\<forall>w2. get_command e s' w2 = (r, s', w2))"
  using assms
  by (simp add: Let_def get_command_def AptInstallStep_init_def is_everything_installed_def
      exec_cmd_def BuildStep_init_def)

theorem AptInstallStep_get_command_cached_witness:
  "fst (get_command (ex_env (\<lambda>n cmd cwd. ([''2''], Inr ''2'')))
          (AptInstallStep_init [''git'', ''vim''] 600) ex_world)
     = Inr ''sudo dpkg-reconfigure git vim''
   \<and> fst (get_command (ex_env (\<lambda>n cmd cwd. ([''1''], Inr ''1'')))
          (AptInstallStep_init [''git'', ''vim''] 600) ex_world)
     = Inr ''sudo apt-get install -y git vim''"
proof -
  have p2: "py_int ''2'' = Some 2" and p1: "py_int ''1'' = Some 1"
    by (simp_all add: py_int_def py_isspace_def py_unsigned_def is_digit_def digit_val_def)
  have a: "fst (get_command (ex_env (\<lambda>n cmd cwd. ([''2''], Inr ''2'')))
          (AptInstallStep_init [''git'', ''vim''] 600) ex_world)
     = Inr ''sudo dpkg-reconfigure git vim''"
    using AptInstallStep_get_command_cached
      [where e = "ex_env (\<lambda>n cmd cwd. ([''2''], Inr ''2''))" and w = ex_world
         and packages = "[''git'', ''vim'']" and lines = "[''2'']" and out = "''2''"
         and installed = 2 and tmo = 600] p2
    by (simp add: ex_env_def split: prod.splits)
  have b: "fst (get_command (ex_env (\<lambda>n cmd cwd. ([''1''], Inr ''1'')))
          (AptInstallStep_init [''git'', ''vim''] 600) ex_world)
     = Inr ''sudo apt-get install -y git vim''"
    using AptInstallStep_get_command_cached
      [where e = "ex_env (\<lambda>n cmd cwd. ([''1''], Inr ''1''))" and w = ex_world
         and packages = "[''git'', ''vim'']" and lines = "[''1'']" and out = "''1''"
         and installed = 1 and tmo = 600] p1
    by (simp add: ex_env_def split: prod.splits)
  from a b show ?thesis by blast
qed

subsection \<open>Constructing a builder\<close>

lemma dict_get_dict_del: "dict_get (dict_del k d) k = None"
  by (induction d) (auto simp: dict_get_def dict_del_def)

lemma load_plugins_loop_ok:
  "load_plugins_loop e ps = (Inr plist, ps') \<Longrightarrow> ps' = map (dict_del ''name'') ps"
proof (induction ps arbitrary: plist ps')
  case Nil
  then show ?case by simp
next
  case (Cons pdict rest)
  from Cons.prems obtain plist' rest' where
    r: "load_plugins_loop e rest = (Inr plist', rest')" and p: "ps' = dict_del ''name'' pdict # rest'"
    by (auto simp: Let_def split: option.splits sum.splits error.splits prod.splits)
  from Cons.IH [OF r] p show ?case by simp
qed

lemma load_plugins_loop_no_name:
  "dict_get pdict ''name'' = None \<Longrightarrow>
   load_plugins_loop e (pdict # rest) = (Inl (BadPluginConfig pdict), pdict # rest)"
  by simp

lemma Builder_init_load_fails:
  "conf_name c = Some nm \<Longrightarrow> fst (load_plugins e c) = Inl err \<Longrightarrow>
   fst (Builder_init e mgr c wdir plat rm_env evars) = Inl err"
  by (cases "load_plugins e c") (simp add: Builder_init_def)

lemma load_plugins_first_no_name:
  "conf_plugins c = Some (pdict # rest) \<Longrightarrow> dict_get pdict ''name'' = None \<Longrightarrow>
   fst (load_plugins e c) = Inl (BadPluginConfig pdict)"
  by (simp add: load_plugins_def)

text \<open>
  Claim C9. Constructing a builder changes the configuration it is given:
  \<^verbatim>\<open>_load_plugins\<close> deletes the key \<^verbatim>\<open>name\<close> from every plugin dictionary. When a
  configuration with at least one plugin has built a builder, the configuration left
  behind has no plugin names, and constructing a builder from it again (in any
  environment, with any other arguments) raises \<^verbatim>\<open>BadPluginConfig\<close> for the first
  plugin dictionary.
\<close>

theorem second_Builder_raises_BadPluginConfig:
  assumes ok: "\<not> isl (fst (Builder_init e mgr bconf wdir plat rm_env evars))"
    and ne: "conf_plugins bconf = Some (pdict # rest)"
  shows "conf_plugins (snd (Builder_init e mgr bconf wdir plat rm_env evars))
           = Some (map (dict_del ''name'') (pdict # rest))
       \<and> fst (Builder_init e' mgr' (snd (Builder_init e mgr bconf wdir plat rm_env evars))
                 wdir' plat' rm_env' evars')
           = Inl (BadPluginConfig (dict_del ''name'' pdict))"
proof -
  let ?bconf' = "snd (Builder_init e mgr bconf wdir plat rm_env evars)"
  from ok obtain nm plist ps' where
    nm: "conf_name bconf = Some nm"
    and lp: "load_plugins_loop e (pdict # rest) = (Inr plist, ps')"
    and c': "?bconf' = bconf\<lparr> conf_plugins := Some ps' \<rparr>"
    using ne
    by (auto simp: Builder_init_def load_plugins_def split: option.splits sum.splits prod.splits)
  from load_plugins_loop_ok [OF lp] have ps': "ps' = map (dict_del ''name'') (pdict # rest)" .
  have 1: "conf_plugins ?bconf' = Some (map (dict_del ''name'') (pdict # rest))"
    using c' ps' by simp
  have 2: "conf_name ?bconf' = Some nm" using c' nm by simp
  have "fst (load_plugins e' ?bconf') = Inl (BadPluginConfig (dict_del ''name'' pdict))"
    using 1 by (intro load_plugins_first_no_name [where rest = "map (dict_del ''name'') rest"])
      (simp_all add: dict_get_dict_del)
  with 2 have "fst (Builder_init e' mgr' ?bconf' wdir' plat' rm_env' evars')
               = Inl (BadPluginConfig (dict_del ''name'' pdict))"
    by (rule Builder_init_load_fails)
  with 1 show ?thesis by simp
qed

lemma ex_Builder_init:
  "Builder_init (ex_env sh) [] ex_conf ''src'' ''linux-generic'' True [] =
     (Inr \<lparr> manager = [], conf = ex_conf\<lparr> conf_plugins := Some [[(''packages'', PStrList [''git''])]] \<rparr>,
            builder_name = ''b1'', build_uuid = None, workdir = ''src'',
            plugins = [AptInstallPlugin [''git'']],
            steps = [AptUpdateStep_init 600, AptInstallStep_init [''git''] 600,
                     BuildStep_init ''echo hi'' ''echo hi'' False 3600 False],
            platform = ''linux-generic'', remove_env = True, envvars = [], step_output_buff = [],
            current_step_output_index = None, current_step_output_buff_len = 0,
            STEP_OUTPUT_BUFF_LEN = 0 \<rparr>,
      ex_conf\<lparr> conf_plugins := Some [[(''packages'', PStrList [''git''])]] \<rparr>)"
  by (simp add: Builder_init_def load_plugins_def ex_conf_def ex_env_def dict_get_def dict_del_def
      AptInstallPlugin_init_def keys_within_def get_steps_def BuildStep_kwargs_def)

theorem second_Builder_raises_BadPluginConfig_witness:
  "fst (Builder_init (ex_env (\<lambda>n cmd cwd. ([], Inr '''')))  []
          (snd (Builder_init (ex_env (\<lambda>n cmd cwd. ([], Inr ''''))) [] ex_conf ''src'' ''linux-generic'' True []))
          ''src'' ''linux-generic'' True [])
     = Inl (BadPluginConfig [(''packages'', PStrList [''git''])])"
  using second_Builder_raises_BadPluginConfig
    [where e = "ex_env (\<lambda>n cmd cwd. ([], Inr ''''))" and mgr = "[]" and bconf = ex_conf
       and wdir = "''src''" and plat = "''linux-generic''" and rm_env = True and evars = "[]"
       and pdict = "[(''name'', PStr ''apt-install''), (''packages'', PStrList [''git''])]"
       and rest = "[]" and e' = "ex_env (\<lambda>n cmd cwd. ([], Inr ''''))" and mgr' = "[]"
       and wdir' = "''src''" and plat' = "''linux-generic''" and rm_env' = True and evars' = "[]"]
  by (simp add: ex_Builder_init) (simp add: ex_conf_def dict_del_def)

subsection \<open>One iteration of the build loop\<close>

lemma output_msgs_Nil [simp]: "output_msgs u n [] = []"
  by (simp add: output_msgs_def)

lemma output_msgs_Cons: "output_msgs u n (x # xs) = StepOutputInfo u n x # output_msgs u (Suc n) xs"
  by (simp add: output_msgs_def)

lemma output_msgs_append:
  "output_msgs u n (xs @ ys) = output_msgs u n xs @ output_msgs u (n + length xs) ys"
  by (induction xs arbitrary: n) (simp_all add: output_msgs_Cons)

lemma leading_output_msgs:
  "leading_output_indexes (output_msgs u n outs @ ms) = [n..<n + length outs] @ leading_output_indexes ms"
  by (induction outs arbitrary: n) (simp_all add: output_msgs_Cons upt_rec)

lemma output_indexes_output_msgs:
  "output_indexes (output_msgs u n outs @ ms) = output_indexes ms"
  by (induction outs arbitrary: n) (simp_all add: output_msgs_Cons)

lemma flush_manager:
  "manager (flush_step_output_buff u b) =
     manager b @ output_msgs u (next_index b) [py_strip [CHR 0x0A] (concat (step_output_buff b))]"
  by (simp add: flush_step_output_buff_def send_info_def next_index_def output_msgs_def Let_def
      split: option.splits)

lemma flush_next_index: "next_index (flush_step_output_buff u b) = Suc (next_index b)"
  by (simp add: flush_step_output_buff_def send_info_def next_index_def Let_def split: option.splits)

lemma flush_frame:
  "steps (flush_step_output_buff u b) = steps b"
  "STEP_OUTPUT_BUFF_LEN (flush_step_output_buff u b) = STEP_OUTPUT_BUFF_LEN b"
  by (simp_all add: flush_step_output_buff_def send_info_def Let_def)

lemma send_step_output_info_emits:
  "\<exists>outs. manager (send_step_output_info si i l b) = manager b @ output_msgs (si_uuid si) (next_index b) outs
        \<and> next_index (send_step_output_info si i l b) = next_index b + length outs"
proof (cases "current_step_output_buff_len b + length l > STEP_OUTPUT_BUFF_LEN b")
  case True
  let ?b1 = "b\<lparr> step_output_buff := step_output_buff b @ [l],
                 current_step_output_buff_len := current_step_output_buff_len b + length l \<rparr>"
  have eq: "send_step_output_info si i l b = flush_step_output_buff (si_uuid si) ?b1"
    using True by (simp add: send_step_output_info_def Let_def)
  have n: "next_index ?b1 = next_index b" by (simp add: next_index_def)
  have "manager (send_step_output_info si i l b) =
          manager b @ output_msgs (si_uuid si) (next_index b)
                        [py_strip [CHR 0x0A] (concat (step_output_buff ?b1))]"
    unfolding eq flush_manager n by simp
  moreover have "next_index (send_step_output_info si i l b) = next_index b + 1"
    unfolding eq flush_next_index n by simp
  ultimately show ?thesis by (intro exI [where x = "[py_strip [CHR 0x0A] (concat (step_output_buff ?b1))]"]) simp
next
  case False
  then have "manager (send_step_output_info si i l b) = manager b"
    and "next_index (send_step_output_info si i l b) = next_index b"
    by (simp_all add: send_step_output_info_def Let_def next_index_def)
  then show ?thesis by (intro exI [where x = "[]"]) simp
qed

lemma fold_send_step_output_info_emits:
  "\<exists>outs. manager (fold (\<lambda>(i, l). send_step_output_info si i l) xs b)
           = manager b @ output_msgs (si_uuid si) (next_index b) outs
        \<and> next_index (fold (\<lambda>(i, l). send_step_output_info si i l) xs b) = next_index b + length outs"
proof (induction xs arbitrary: b)
  case Nil
  show ?case by (intro exI [where x = "[]"]) simp
next
  case (Cons x xs)
  obtain i l where x: "x = (i, l)" by (cases x)
  let ?b1 = "send_step_output_info si i l b"
  from send_step_output_info_emits [of si i l b] obtain o1 where
    m1: "manager ?b1 = manager b @ output_msgs (si_uuid si) (next_index b) o1"
    and n1: "next_index ?b1 = next_index b + length o1" by blast
  from Cons.IH [of ?b1] obtain o2 where
    m2: "manager (fold (\<lambda>(i, l). send_step_output_info si i l) xs ?b1)
           = manager ?b1 @ output_msgs (si_uuid si) (next_index ?b1) o2"
    and n2: "next_index (fold (\<lambda>(i, l). send_step_output_info si i l) xs ?b1) = next_index ?b1 + length o2"
    by blast
  show ?case
    by (intro exI [where x = "o1 @ o2"]) (simp add: x m1 n1 m2 n2 output_msgs_append)
qed

lemma send_step_output_info_frame:
  "steps (send_step_output_info si i l b) = steps b"
  "STEP_OUTPUT_BUFF_LEN (send_step_output_info si i l b) = STEP_OUTPUT_BUFF_LEN b"
  by (simp_all add: send_step_output_info_def flush_frame Let_def)

lemma exec_cmd_emits:
  assumes "exec_cmd e cmd cwd (Some (send_step_output_info si)) b w = (r, b', w')"
  shows "\<exists>outs. manager b' = manager b @ output_msgs (si_uuid si) (next_index b) outs
        \<and> next_index b' = next_index b + length outs"
proof -
  obtain ls res where sh: "shell e (length (shell_log w)) cmd cwd = (ls, res)"
    by (cases "shell e (length (shell_log w)) cmd cwd")
  have "b' = fold (\<lambda>(i, l). send_step_output_info si i l) (enumerate 0 ls) b"
    using assms sh by (simp add: exec_cmd_def)
  then show ?thesis using fold_send_step_output_info_emits [of si "enumerate 0 ls" b] by simp
qed

lemma exec_cmd_frame:
  assumes "exec_cmd e cmd cwd (Some (send_step_output_info si)) b w = (r, b', w')"
  shows "steps b' = steps b"
proof -
  have f: "\<And>xs b. steps (fold (\<lambda>(i, l). send_step_output_info si i l) xs b) = steps b"
  proof -
    fix xs :: "(nat \<times> string) list" and b
    show "steps (fold (\<lambda>(i, l). send_step_output_info si i l) xs b) = steps b"
      by (induction xs arbitrary: b) (auto simp: send_step_output_info_frame)
  qed
  obtain ls res where sh: "shell e (length (shell_log w)) cmd cwd = (ls, res)"
    by (cases "shell e (length (shell_log w)) cmd cwd")
  have "b' = fold (\<lambda>(i, l). send_step_output_info si i l) (enumerate 0 ls) b"
    using assms sh by (simp add: exec_cmd_def)
  then show ?thesis by (simp add: f)
qed

lemma get_command_stop_on_fail:
  "get_command e s w = (r, s', w') \<Longrightarrow> stop_on_fail s' = stop_on_fail s"
  by (auto simp: get_command_def Let_def split: step_class.splits if_splits prod.splits sum.splits)

lemma BuildStep_execute_emits:
  assumes "BuildStep_execute e s cwd (Some (send_step_output_info si)) b w = (r, s', b', w')"
  shows "\<exists>outs. manager b' = manager b @ output_msgs (si_uuid si) (next_index b) outs
        \<and> next_index b' = next_index b + length outs"
proof -
  obtain g s1 w1 where gc: "get_command e s w = (g, s1, w1)"
    by (cases "get_command e s w")
  show ?thesis
  proof (cases g)
    case (Inl err)
    then have "b' = b" using assms gc
      by (auto simp: BuildStep_execute_def Let_def split: error.splits)
    then show ?thesis by (intro exI [where x = "[]"]) simp
  next
    case (Inr cmd)
    obtain res b2 w2 where ex: "exec_cmd e cmd cwd (Some (send_step_output_info si)) b w1 = (res, b2, w2)"
      by (cases "exec_cmd e cmd cwd (Some (send_step_output_info si)) b w1")
    have "b' = b2" using assms gc Inr ex
      by (auto simp: BuildStep_execute_def Let_def split: error.splits sum.splits)
    then show ?thesis using exec_cmd_emits [OF ex] by simp
  qed
qed

lemma BuildStep_execute_frame:
  assumes "BuildStep_execute e s cwd (Some (send_step_output_info si)) b w = (r, s', b', w')"
  shows "steps b' = steps b \<and> stop_on_fail s' = stop_on_fail s
         \<and> (\<forall>out. r = Inr out \<longrightarrow> so_status out \<noteq> Running)"
proof -
  obtain g s1 w1 where gc: "get_command e s w = (g, s1, w1)"
    by (cases "get_command e s w")
  note sf = get_command_stop_on_fail [OF gc]
  show ?thesis
  proof (cases g)
    case (Inl err)
    then show ?thesis using assms gc sf
      by (auto simp: BuildStep_execute_def Let_def split: error.splits if_splits)
  next
    case (Inr cmd)
    obtain res b2 w2 where ex: "exec_cmd e cmd cwd (Some (send_step_output_info si)) b w1 = (res, b2, w2)"
      by (cases "exec_cmd e cmd cwd (Some (send_step_output_info si)) b w1")
    show ?thesis using assms gc Inr ex sf exec_cmd_frame [OF ex]
      by (auto simp: BuildStep_execute_def Let_def split: error.splits sum.splits if_splits)
  qed
qed

lemma execute_emits:
  assumes "execute e s cwd (Some (send_step_output_info si)) b w = (r, s', b', w')"
  shows "\<exists>outs. manager b' = manager b @ output_msgs (si_uuid si) (next_index b) outs
        \<and> next_index b' = next_index b + length outs"
proof (cases "BuildStep_execute e s cwd (Some (send_step_output_info si)) b w = (r, s', b', w')")
  case True
  then show ?thesis by (rule BuildStep_execute_emits)
next
  case False
  then have "b' = b" using assms
    by (auto simp: execute_def PythonCreateVenvStep_execute_def Let_def
        split: step_class.splits if_splits)
  then show ?thesis by (intro exI [where x = "[]"]) simp
qed

lemma execute_frame:
  assumes "execute e s cwd (Some (send_step_output_info si)) b w = (r, s', b', w')"
  shows "steps b' = steps b \<and> stop_on_fail s' = stop_on_fail s
         \<and> (\<forall>out. r = Inr out \<longrightarrow> so_status out \<noteq> Running)"
proof (cases "BuildStep_execute e s cwd (Some (send_step_output_info si)) b w = (r, s', b', w')")
  case True
  then show ?thesis by (rule BuildStep_execute_frame)
next
  case False
  then show ?thesis using assms
    by (auto simp: execute_def PythonCreateVenvStep_execute_def Let_def
        split: step_class.splits if_splits)
qed

lemma do_build_step_effect:
  assumes "do_build_step e i step st = Inr (st', stop)"
  shows "\<exists>sr sf outs.
           manager (bs_builder st') =
             manager (bs_builder st) @ StepInfo sr # output_msgs (si_uuid sr) 0 outs @ [StepInfo sf]
         \<and> outs \<noteq> [] \<and> si_status sr = Running \<and> si_status sf \<noteq> Running
         \<and> build_info_steps st' = build_info_steps st @ [sf]
         \<and> si_index sf = i
         \<and> stop = (si_status sf = Cancelled
                   \<or> (si_status sf \<in> {Fail, Exception} \<and> stop_on_fail step))
         \<and> build_status st' =
             (if build_status st = None \<or> build_status st = Some Success
              then Some (si_status sf) else build_status st)
         \<and> length (steps (bs_builder st')) = length (steps (bs_builder st))"
proof -
  define b1 where "b1 = clear_step_output_buff (bs_builder st)"
  obtain g step1 w1 where gc: "get_command e step (bs_world st) = (g, step1, w1)"
    by (cases "get_command e step (bs_world st)")
  from assms gc obtain cmd where g: "g = Inr cmd"
    by (cases g) (simp_all add: do_build_step_def Let_def)
  define b2 where "b2 = b1\<lparr> steps := (steps b1)[i := step1] \<rparr>"
  define sr where "sr = \<lparr> si_status = Running, si_cmd = cmd, si_name = name step1,
                            si_index = i, si_output = '''',
                            si_uuid = uuid4 e (uuids_drawn w1),
                            si_last_step_status = last_step_status st \<rparr>"
  define w2 where "w2 = w1\<lparr> uuids_drawn := Suc (uuids_drawn w1) \<rparr>"
  define b3 where "b3 = send_info (StepInfo sr) b2"
  obtain r step2 b4 w3 where
    ex: "execute e step1 (get_tmp_dir e b3) (Some (send_step_output_info sr)) b3 w2 = (r, step2, b4, w3)"
    by (cases "execute e step1 (get_tmp_dir e b3) (Some (send_step_output_info sr)) b3 w2")
  from assms gc g ex obtain out where r: "r = Inr out"
    by (cases r) (simp_all add: do_build_step_def Let_def b1_def b2_def sr_def w2_def b3_def)
  define b5 where "b5 = b4\<lparr> steps := (steps b4)[i := step2] \<rparr>"
  define sf where "sf = sr\<lparr> si_status := so_status out, si_output := so_output out \<rparr>"
  define b6 where "b6 = flush_step_output_buff (si_uuid sf) b5"
  define b7 where "b7 = send_info (StepInfo sf) b6"
  have st': "st' = \<lparr> bs_builder = b7, bs_world = w3,
                     build_status = (if build_status st = None \<or> build_status st = Some Success
                                     then Some (si_status sf) else build_status st),
                     last_step_status = Some (si_status sf),
                     last_step_output = Some out,
                     build_info_steps = build_info_steps st @ [sf] \<rparr>"
    and stop: "stop = (si_status sf = Cancelled
                       \<or> (si_status sf \<in> set [Fail, Exception] \<and> stop_on_fail step2))"
    using assms gc g ex r
    by (auto simp: do_build_step_def Let_def b1_def b2_def sr_def w2_def b3_def b5_def sf_def
        b6_def b7_def)
  have u: "si_uuid sf = si_uuid sr" by (simp add: sf_def)
  have m3: "manager b3 = manager (bs_builder st) @ [StepInfo sr]"
    by (simp add: b3_def send_info_def b2_def b1_def clear_step_output_buff_def)
  have n3: "next_index b3 = 0"
    by (simp add: b3_def send_info_def b2_def b1_def clear_step_output_buff_def next_index_def)
  from execute_emits [OF ex] n3 obtain o1 where
    m4: "manager b4 = manager b3 @ output_msgs (si_uuid sr) 0 o1"
    and n4: "next_index b4 = length o1" by auto
  have m5: "manager b5 = manager b4" and n5: "next_index b5 = next_index b4"
    and bf5: "step_output_buff b5 = step_output_buff b4"
    by (simp_all add: b5_def next_index_def)
  define x where "x = py_strip [CHR 0x0A] (concat (step_output_buff b5))"
  have m6: "manager b6 = manager b5 @ output_msgs (si_uuid sr) (length o1) [x]"
    unfolding b6_def flush_manager u n5 n4 x_def by simp
  have m7: "manager b7 = manager (bs_builder st) @ StepInfo sr # output_msgs (si_uuid sr) 0 (o1 @ [x]) @ [StepInfo sf]"
    by (simp add: b7_def send_info_def m6 m5 m4 m3 output_msgs_append)
  from execute_frame [OF ex] r have fr: "steps b4 = steps b3" "stop_on_fail step2 = stop_on_fail step1"
    "so_status out \<noteq> Running" by auto
  have sof: "stop_on_fail step2 = stop_on_fail step"
    using fr(2) get_command_stop_on_fail [OF gc] by simp
  have len: "length (steps b7) = length (steps (bs_builder st))"
    by (simp add: b7_def send_info_def b6_def flush_frame b5_def fr(1) b3_def b2_def b1_def
        clear_step_output_buff_def)
  have "manager (bs_builder st') =
             manager (bs_builder st) @ StepInfo sr # output_msgs (si_uuid sr) 0 (o1 @ [x]) @ [StepInfo sf]"
    using m7 st' by simp
  moreover have "o1 @ [x] \<noteq> []" by simp
  moreover have "si_status sr = Running" by (simp add: sr_def)
  moreover have "si_status sf \<noteq> Running" using fr(3) by (simp add: sf_def)
  moreover have "build_info_steps st' = build_info_steps st @ [sf]" using st' by simp
  moreover have "si_index sf = i" by (simp add: sf_def sr_def)
  moreover have "stop = (si_status sf = Cancelled
                   \<or> (si_status sf \<in> {Fail, Exception} \<and> stop_on_fail step))"
    using stop sof by simp
  moreover have "build_status st' =
             (if build_status st = None \<or> build_status st = Some Success
              then Some (si_status sf) else build_status st)" using st' by simp
  moreover have "length (steps (bs_builder st')) = length (steps (bs_builder st))"
    using len st' by simp
  ultimately show ?thesis by blast
qed

text \<open>The definitions that evaluate the build loop on a concrete input.\<close>

lemmas build_eval_simps =
  do_build_def do_build_step_def get_command_def execute_def BuildStep_execute_def exec_cmd_def
  send_info_def clear_step_output_buff_def send_step_output_info_def flush_step_output_buff_def
  get_tmp_dir_def BuildStep_init_def py_strip_def Let_def

subsection \<open>The output messages of a step\<close>

text \<open>
  Claim C5, as amended. The output of every \<^verbatim>\<open>step_output_info\<close> message is the
  concatenation of the lines in the step output buffer, with no separator between
  them, with leading and trailing newlines stripped. A flush sends exactly one message
  with that output; the line callback sends it, with the new line as the last one of
  the buffer, when the buffered length exceeds \<^verbatim>\<open>STEP_OUTPUT_BUFF_LEN\<close>, and sends
  nothing otherwise.
\<close>

theorem step_output_is_concatenated_buffer:
  "manager (flush_step_output_buff u b) =
     manager b @ [StepOutputInfo u (next_index b)
                    (py_strip [CHR 0x0A] (concat (step_output_buff b)))]
   \<and> manager (send_step_output_info si i l b) =
       (if current_step_output_buff_len b + length l > STEP_OUTPUT_BUFF_LEN b
        then manager b @ [StepOutputInfo (si_uuid si) (next_index b)
                            (py_strip [CHR 0x0A] (concat (step_output_buff b @ [l])))]
        else manager b)"
  by (simp add: flush_manager output_msgs_Cons send_step_output_info_def Let_def next_index_def)

text \<open>
  The claim as stated (the lines are joined by newline) fails where the buffer holds
  more than one line, which a builder class with \<^verbatim>\<open>STEP_OUTPUT_BUFF_LEN = 2\<close> reaches:
  the lines \<^verbatim>\<open>a\n\<close> and \<^verbatim>\<open>b\n\<close> are sent in one message with the output \<^verbatim>\<open>a\nb\<close>,
  while joining them by newline and stripping gives \<^verbatim>\<open>a\n\nb\<close>.
\<close>

theorem step_output_not_newline_joined_counterexample:
  "manager (send_step_output_info ex_step_info 1 (''b'' @ [CHR 0x0A])
             (send_step_output_info ex_step_info 0 (''a'' @ [CHR 0x0A])
                ((ex_builder ex_plain_conf []) \<lparr> STEP_OUTPUT_BUFF_LEN := 2 \<rparr>)))
     = [StepOutputInfo ''uuid-0'' 0 (''a'' @ [CHR 0x0A] @ ''b'')]
   \<and> spec_output [''a'' @ [CHR 0x0A], ''b'' @ [CHR 0x0A]] = ''a'' @ [CHR 0x0A, CHR 0x0A] @ ''b''
   \<and> ''a'' @ [CHR 0x0A] @ ''b'' \<noteq> ''a'' @ [CHR 0x0A, CHR 0x0A] @ ''b''"
  by (simp add: send_step_output_info_def flush_step_output_buff_def send_info_def ex_builder_def
      ex_step_info_def spec_output_def py_strip_def Let_def)

lemma py_join_blank_lines:
  "set es \<subseteq> {[]} \<Longrightarrow> py_join [c] (es @ [l]) = replicate (length es) c @ l"
proof (induction es)
  case Nil
  show ?case by simp
next
  case (Cons x es)
  then have x: "x = []" and es: "set es \<subseteq> {[]}" by auto
  from Cons.IH [OF es] show ?case
    by (cases "es @ [l]") (simp_all add: x)
qed

lemma py_strip_leading:
  "py_strip [c] (replicate k c @ l) = py_strip [c] l"
proof -
  have "dropWhile (\<lambda>x. x \<in> set [c]) (replicate k c @ l) = dropWhile (\<lambda>x. x \<in> set [c]) l"
    by (induction k) simp_all
  then show ?thesis by (simp only: py_strip_def)
qed

lemma concat_blank_lines: "set es \<subseteq> {[]} \<Longrightarrow> concat es = []"
  by (induction es) auto

lemma py_strip_all: "py_strip [c] (replicate k c) = []"
  using py_strip_empty_iff [of "[c]" "replicate k c"] by auto

lemma py_join_blank_only: "set es \<subseteq> {[]} \<Longrightarrow> \<exists>k. py_join [c] es = replicate k c"
proof (cases es rule: rev_cases)
  case Nil
  then show ?thesis by (intro exI [where x = 0]) simp
next
  case (snoc ys y)
  assume "set es \<subseteq> {[]}"
  with snoc have "set ys \<subseteq> {[]}" and "y = []" by auto
  then have "py_join [c] es = replicate (length ys) c" using snoc py_join_blank_lines [of ys c y] by simp
  then show ?thesis by blast
qed

text \<open>
  With \<^verbatim>\<open>STEP_OUTPUT_BUFF_LEN = 0\<close>, the value in \<^verbatim>\<open>Builder\<close>, a flush follows every
  line that is not empty, so a buffer never holds anything before its last line but
  empty lines. On such buffers concatenation and joining by newline give the same
  output once the newlines at the ends are stripped; the two differ only for a
  builder class with a larger \<^verbatim>\<open>STEP_OUTPUT_BUFF_LEN\<close>.
\<close>

lemma default_threshold_output_agrees:
  assumes "set (step_output_buff b) \<subseteq> {[]}"
  shows "py_strip [CHR 0x0A] (concat (step_output_buff b @ [l])) = spec_output (step_output_buff b @ [l])"
    and "py_strip [CHR 0x0A] (concat (step_output_buff b)) = spec_output (step_output_buff b)"
proof -
  show "py_strip [CHR 0x0A] (concat (step_output_buff b @ [l])) = spec_output (step_output_buff b @ [l])"
    using assms
    by (simp add: spec_output_def py_join_blank_lines py_strip_leading concat_blank_lines)
  obtain k where "py_join [CHR 0x0A] (step_output_buff b) = replicate k (CHR 0x0A)"
    using py_join_blank_only [OF assms] by blast
  then show "py_strip [CHR 0x0A] (concat (step_output_buff b)) = spec_output (step_output_buff b)"
    using assms by (simp add: spec_output_def concat_blank_lines py_strip_all) (simp add: py_strip_def)
qed

lemma default_threshold_buffer_blank:
  assumes "STEP_OUTPUT_BUFF_LEN b = 0" and "current_step_output_buff_len b = 0"
    and "set (step_output_buff b) \<subseteq> {[]}"
  shows "STEP_OUTPUT_BUFF_LEN (send_step_output_info si i l b) = 0
       \<and> current_step_output_buff_len (send_step_output_info si i l b) = 0
       \<and> set (step_output_buff (send_step_output_info si i l b)) \<subseteq> {[]}"
  using assms
  by (auto simp: send_step_output_info_def flush_step_output_buff_def send_info_def Let_def)

lemma filter_output_msgs:
  "filter is_step_output_info (output_msgs u n outs) = output_msgs u n outs"
  by (induction outs arbitrary: n) (simp_all add: output_msgs_Cons)

lemma get_tmp_dir_frame:
  "workdir b' = workdir b \<Longrightarrow> builder_name b' = builder_name b \<Longrightarrow> get_tmp_dir e b' = get_tmp_dir e b"
  by (simp add: get_tmp_dir_def)

lemma execute_no_lines:
  assumes base: "step_class s = BuildStepBase"
    and nol: "fst (shell e (length (shell_log w)) (command s) cwd) = []"
    and ex: "execute e s cwd out_fn b w = (r, s', b', w')"
  shows "b' = b"
proof -
  obtain res where sh: "shell e (length (shell_log w)) (command s) cwd = ([], res)"
    using nol by (cases "shell e (length (shell_log w)) (command s) cwd") simp
  have "exec_cmd e (command s) cwd out_fn b w
          = (res, b, w\<lparr> shell_log := shell_log w @ [(command s, cwd)] \<rparr>)"
    using sh by (simp add: exec_cmd_def split: option.splits)
  then show ?thesis using ex
    by (auto simp: execute_def base BuildStep_execute_def get_command_base [OF base] Let_def
        split: sum.splits error.splits)
qed

lemma do_build_step_no_lines:
  assumes d: "do_build_step e i step st = Inr (st', stop)"
    and base: "step_class step = BuildStepBase"
    and nol: "fst (shell e (length (shell_log (bs_world st))) (command step)
                     (get_tmp_dir e (bs_builder st))) = []"
  shows "filter is_step_output_info
           (drop (length (manager (bs_builder st))) (manager (bs_builder st')))
         = [StepOutputInfo (uuid4 e (uuids_drawn (bs_world st))) 0 '''']"
proof -
  define b1 where "b1 = clear_step_output_buff (bs_builder st)"
  have gc: "get_command e step (bs_world st) = (Inr (command step), step, bs_world st)"
    using base by (rule get_command_base)
  define b2 where "b2 = b1\<lparr> steps := (steps b1)[i := step] \<rparr>"
  define sr where "sr = \<lparr> si_status = Running, si_cmd = command step, si_name = name step,
                            si_index = i, si_output = '''',
                            si_uuid = uuid4 e (uuids_drawn (bs_world st)),
                            si_last_step_status = last_step_status st \<rparr>"
  define w2 where "w2 = (bs_world st)\<lparr> uuids_drawn := Suc (uuids_drawn (bs_world st)) \<rparr>"
  define b3 where "b3 = send_info (StepInfo sr) b2"
  obtain r step2 b4 w3 where
    ex: "execute e step (get_tmp_dir e b3) (Some (send_step_output_info sr)) b3 w2 = (r, step2, b4, w3)"
    by (cases "execute e step (get_tmp_dir e b3) (Some (send_step_output_info sr)) b3 w2")
  from d gc ex obtain out where r: "r = Inr out"
    by (cases r) (simp_all add: do_build_step_def Let_def b1_def b2_def sr_def w2_def b3_def)
  define sf where "sf = sr\<lparr> si_status := so_status out, si_output := so_output out \<rparr>"
  have st': "manager (bs_builder st') =
               manager (flush_step_output_buff (si_uuid sf) (b4\<lparr> steps := (steps b4)[i := step2] \<rparr>))
               @ [StepInfo sf]"
    using d gc ex r
    by (auto simp: do_build_step_def Let_def b1_def b2_def sr_def w2_def b3_def sf_def send_info_def)
  have tmp: "get_tmp_dir e b3 = get_tmp_dir e (bs_builder st)"
    by (simp add: get_tmp_dir_def b3_def send_info_def b2_def b1_def clear_step_output_buff_def)
  have lg: "shell_log w2 = shell_log (bs_world st)" by (simp add: w2_def)
  have b4: "b4 = b3"
    using execute_no_lines [OF base _ ex] nol by (simp add: tmp lg)
  have m3: "manager b3 = manager (bs_builder st) @ [StepInfo sr]"
    and bf3: "step_output_buff b3 = []" and n3: "next_index b3 = 0"
    by (simp_all add: b3_def send_info_def b2_def b1_def clear_step_output_buff_def next_index_def)
  have u: "si_uuid sf = uuid4 e (uuids_drawn (bs_world st))" by (simp add: sf_def sr_def)
  have "manager (bs_builder st') =
          manager (bs_builder st) @ [StepInfo sr, StepOutputInfo (si_uuid sf) 0 '''', StepInfo sf]"
  proof -
    let ?b5 = "b3\<lparr> steps := (steps b3)[i := step2] \<rparr>"
    have "next_index ?b5 = 0" using n3 by (simp add: next_index_def)
    moreover have "step_output_buff ?b5 = []" using bf3 by simp
    moreover have "manager ?b5 = manager (bs_builder st) @ [StepInfo sr]" using m3 by simp
    ultimately show ?thesis
      unfolding st' flush_manager b4 by (simp add: output_msgs_Cons py_strip_def)
  qed
  then show ?thesis by (simp add: u)
qed

text \<open>
  Claim C10. Every step the builder executes emits at least one \<^verbatim>\<open>step_output_info\<close>
  message: the flush after the step sends one unconditionally. A step whose command
  hands no line to the line callback yields exactly one such message, with
  \<^verbatim>\<open>output_index\<close> 0 and the empty string as output.
\<close>

theorem step_emits_output_info:
  assumes "do_build_step e i step st = Inr (st', stop)"
  shows "filter is_step_output_info
           (drop (length (manager (bs_builder st))) (manager (bs_builder st'))) \<noteq> []
       \<and> (step_class step = BuildStepBase
            \<and> fst (shell e (length (shell_log (bs_world st))) (command step)
                     (get_tmp_dir e (bs_builder st))) = []
          \<longrightarrow> filter is_step_output_info
                (drop (length (manager (bs_builder st))) (manager (bs_builder st')))
              = [StepOutputInfo (uuid4 e (uuids_drawn (bs_world st))) 0 ''''])"
proof -
  from do_build_step_effect [OF assms] obtain sr sf outs where
    m: "manager (bs_builder st') =
           manager (bs_builder st) @ StepInfo sr # output_msgs (si_uuid sr) 0 outs @ [StepInfo sf]"
    and ne: "outs \<noteq> []"
    by blast
  have "filter is_step_output_info
           (drop (length (manager (bs_builder st))) (manager (bs_builder st')))
        = output_msgs (si_uuid sr) 0 outs"
    by (simp add: m filter_output_msgs)
  moreover have "output_msgs (si_uuid sr) 0 outs \<noteq> []"
    using ne by (cases outs) (simp_all add: output_msgs_Cons)
  ultimately show ?thesis using do_build_step_no_lines [OF assms] by simp
qed

lemma ex_silent_step_runs:
  "\<not> isl (do_build_step (ex_env ex_shell_silent) 0 ex_silent_step ex_state)"
  by (simp add: build_eval_simps ex_env_def ex_builder_def ex_world_def ex_shell_silent_def
      ex_silent_step_def ex_state_def)

theorem step_emits_output_info_witness:
  "filter is_step_output_info
     (manager (bs_builder (fst (projr (do_build_step (ex_env ex_shell_silent) 0 ex_silent_step ex_state)))))
   = [StepOutputInfo ''uuid-0'' 0 '''']"
proof -
  let ?r = "do_build_step (ex_env ex_shell_silent) 0 ex_silent_step ex_state"
  have r: "?r = Inr (fst (projr ?r), snd (projr ?r))"
    using ex_silent_step_runs by simp
  have base: "step_class ex_silent_step = BuildStepBase"
    by (simp add: ex_silent_step_def BuildStep_init_def)
  have nol: "fst (shell (ex_env ex_shell_silent) (length (shell_log (bs_world ex_state)))
                    (command ex_silent_step) (get_tmp_dir (ex_env ex_shell_silent) (bs_builder ex_state))) = []"
    by (simp add: ex_env_def ex_shell_silent_def)
  have m: "manager (bs_builder ex_state) = []" by (simp add: ex_state_def ex_builder_def)
  have u: "uuid4 (ex_env ex_shell_silent) (uuids_drawn (bs_world ex_state)) = ''uuid-0''"
    by (simp add: ex_env_def ex_state_def ex_world_def str_nat.simps digit_char_def)
  from step_emits_output_info [OF r] base nol show ?thesis
    by (simp add: m u)
qed

subsection \<open>The build loop\<close>

lemma first_non_success_Cons:
  "first_non_success (s # sts) =
     (if s \<noteq> Success then Some s else if sts = [] then Some Success else first_non_success sts)"
  by (simp add: first_non_success_def split: option.splits)

lemma build_loop_status:
  assumes "build_loop e i ss st = Inr st'"
  shows "\<exists>sfs. build_info_steps st' = build_info_steps st @ sfs
          \<and> build_status st' =
              (if sfs \<noteq> [] \<and> (build_status st = None \<or> build_status st = Some Success)
               then first_non_success (map si_status sfs) else build_status st)"
  using assms
proof (induction ss arbitrary: i st)
  case Nil
  then show ?case by (intro exI [where x = "[]"]) simp
next
  case (Cons step rest)
  from Cons.prems obtain st1 stop where
    d: "do_build_step e i step st = Inr (st1, stop)"
    by (cases "do_build_step e i step st") auto
  from do_build_step_effect [OF d] obtain sf where
    s1: "build_info_steps st1 = build_info_steps st @ [sf]"
    and a1: "build_status st1 =
             (if build_status st = None \<or> build_status st = Some Success
              then Some (si_status sf) else build_status st)"
    by blast
  show ?case
  proof (cases stop)
    case True
    then have "st' = st1" using Cons.prems d by simp
    then show ?thesis using s1 a1
      by (intro exI [where x = "[sf]"]) (simp add: first_non_success_Cons)
  next
    case False
    then have "build_loop e (Suc i) rest st1 = Inr st'" using Cons.prems d by simp
    from Cons.IH [OF this] obtain sfs where
      s2: "build_info_steps st' = build_info_steps st1 @ sfs"
      and a2: "build_status st' =
              (if sfs \<noteq> [] \<and> (build_status st1 = None \<or> build_status st1 = Some Success)
               then first_non_success (map si_status sfs) else build_status st1)"
      by blast
    show ?thesis using s1 s2 a1 a2
      by (intro exI [where x = "sf # sfs"]) (auto simp: first_non_success_Cons)
  qed
qed

lemma build_loop_status_kept:
  assumes "build_loop e i ss st = Inr st'" and "build_status st = Some x" and "x \<noteq> Success"
  shows "build_status st' = Some x"
  using build_loop_status [OF assms(1)] assms(2,3) by auto

text \<open>
  Claim C1, as amended. The status of the final \<^verbatim>\<open>build_info\<close> is the first status
  that is not \<^verbatim>\<open>success\<close> among the terminal statuses of the steps executed, in
  execution order; it is \<^verbatim>\<open>success\<close> when every executed step succeeded (and \<open>None\<close>
  when no step was executed). Once the running build status is not \<^verbatim>\<open>success\<close>, no
  later iteration of the loop changes it; in particular it never improves.
\<close>

theorem build_status_first_non_success:
  assumes "do_build e b w = Inr (bi, b', w')"
  shows "bi_status bi = first_non_success (map si_status (bi_steps bi))
       \<and> (\<forall>i ss st st' x. build_loop e i ss st = Inr st' \<and> build_status st = Some x \<and> x \<noteq> Success
             \<longrightarrow> build_status st' = Some x)"
proof -
  let ?b1 = "send_info (BuildInfo \<lparr> bi_steps = [], bi_status = Some Running, bi_total_steps = None \<rparr>) b"
  let ?st0 = "\<lparr> bs_builder = ?b1, bs_world = w, build_status = None, last_step_status = None,
                  last_step_output = None, build_info_steps = [] \<rparr>"
  from assms obtain st where
    l: "build_loop e 0 (steps ?b1) ?st0 = Inr st"
    and bi: "bi = \<lparr> bi_steps = build_info_steps st, bi_status = build_status st,
                    bi_total_steps = Some (length (steps (bs_builder st))) \<rparr>"
    by (auto simp: do_build_def Let_def split: sum.splits)
  from build_loop_status [OF l] have
    "build_status st = (if build_info_steps st \<noteq> [] then first_non_success (map si_status (build_info_steps st)) else None)"
    by auto
  then have "bi_status bi = first_non_success (map si_status (bi_steps bi))"
    using bi by (simp add: first_non_success_def)
  then show ?thesis using build_loop_status_kept by blast
qed

lemma ex_two_steps_build:
  "\<not> isl (do_build (ex_env ex_shell_fail) (ex_builder ex_two_conf ex_two_steps) ex_world)"
  "map si_status (bi_steps (fst (projr (do_build (ex_env ex_shell_fail) (ex_builder ex_two_conf ex_two_steps) ex_world))))
     = [Warning, Fail]"
  "bi_status (fst (projr (do_build (ex_env ex_shell_fail) (ex_builder ex_two_conf ex_two_steps) ex_world)))
     = Some Warning"
  by (simp_all add: build_eval_simps ex_env_def ex_builder_def ex_world_def ex_shell_fail_def
      ex_two_steps_def)

lemma ex_two_conf_builder:
  "fst (Builder_init (ex_env sh) [] ex_two_conf ''src'' ''linux-generic'' True [])
     = Inr (ex_builder ex_two_conf ex_two_steps)"
  by (simp add: Builder_init_def load_plugins_def get_steps_def ex_two_conf_def ex_builder_def
      ex_two_steps_def BuildStep_kwargs_def keys_within_def dict_get_def)

theorem build_status_first_non_success_witness:
  "bi_status (fst (projr (do_build (ex_env ex_shell_fail) (ex_builder ex_two_conf ex_two_steps) ex_world)))
     = first_non_success [Warning, Fail]
   \<and> first_non_success [Warning, Fail] = Some Warning"
proof -
  let ?r = "do_build (ex_env ex_shell_fail) (ex_builder ex_two_conf ex_two_steps) ex_world"
  have "?r = Inr (fst (projr ?r), fst (snd (projr ?r)), snd (snd (projr ?r)))"
    using ex_two_steps_build(1) by simp
  from build_status_first_non_success [OF this]
  have "bi_status (fst (projr ?r)) = first_non_success (map si_status (bi_steps (fst (projr ?r))))"
    by blast
  then show ?thesis
    by (simp add: ex_two_steps_build(2) first_non_success_def)
qed

text \<open>
  The claim as stated fails. A step with \<^verbatim>\<open>warning_on_fail\<close> that fails, followed by a
  step that fails, gives the terminal statuses \<^verbatim>\<open>warning\<close> and \<^verbatim>\<open>fail\<close>; the build
  status is \<^verbatim>\<open>warning\<close>, the first of them, and not \<^verbatim>\<open>fail\<close>, the worst.
\<close>

theorem build_status_not_worst_counterexample:
  "fst (Builder_init (ex_env ex_shell_fail) [] ex_two_conf ''src'' ''linux-generic'' True [])
     = Inr (ex_builder ex_two_conf ex_two_steps)
   \<and> \<not> isl (do_build (ex_env ex_shell_fail) (ex_builder ex_two_conf ex_two_steps) ex_world)
   \<and> map si_status (bi_steps (fst (projr (do_build (ex_env ex_shell_fail) (ex_builder ex_two_conf ex_two_steps) ex_world))))
       = [Warning, Fail]
   \<and> bi_status (fst (projr (do_build (ex_env ex_shell_fail) (ex_builder ex_two_conf ex_two_steps) ex_world)))
       = Some Warning
   \<and> spec_worst_status [Warning, Fail] = Fail"
  using ex_two_steps_build ex_two_conf_builder by (simp add: spec_worst_status_def)

lemma build_loop_stops:
  assumes "build_loop e i ss st = Inr st'"
  shows "\<exists>sfs. build_info_steps st' = build_info_steps st @ sfs
          \<and> length sfs \<le> length ss
          \<and> (ss \<noteq> [] \<longrightarrow> sfs \<noteq> [])
          \<and> (\<forall>k < length sfs.
                si_index (sfs ! k) = i + k
              \<and> (breaks_after (sfs ! k) (ss ! k) \<longrightarrow> Suc k = length sfs)
              \<and> (\<not> breaks_after (sfs ! k) (ss ! k) \<longrightarrow> Suc k < length ss \<longrightarrow> Suc k < length sfs))"
  using assms
proof (induction ss arbitrary: i st)
  case Nil
  then show ?case by (intro exI [where x = "[]"]) simp
next
  case (Cons step rest)
  from Cons.prems obtain st1 stop where
    d: "do_build_step e i step st = Inr (st1, stop)"
    by (cases "do_build_step e i step st") auto
  from do_build_step_effect [OF d] obtain sf where
    s1: "build_info_steps st1 = build_info_steps st @ [sf]"
    and ix: "si_index sf = i"
    and stp: "stop = breaks_after sf step"
    unfolding breaks_after_def by auto
  show ?case
  proof (cases stop)
    case True
    then have "st' = st1" using Cons.prems d by simp
    then show ?thesis using s1 ix stp True
      by (intro exI [where x = "[sf]"]) simp
  next
    case False
    then have "build_loop e (Suc i) rest st1 = Inr st'" using Cons.prems d by simp
    from Cons.IH [OF this] obtain sfs where
      s2: "build_info_steps st' = build_info_steps st1 @ sfs"
      and len: "length sfs \<le> length rest"
      and ne: "rest \<noteq> [] \<longrightarrow> sfs \<noteq> []"
      and all: "\<forall>k < length sfs.
                si_index (sfs ! k) = Suc i + k
              \<and> (breaks_after (sfs ! k) (rest ! k) \<longrightarrow> Suc k = length sfs)
              \<and> (\<not> breaks_after (sfs ! k) (rest ! k) \<longrightarrow> Suc k < length rest \<longrightarrow> Suc k < length sfs)"
      by blast
    have "\<forall>k < length (sf # sfs).
                si_index ((sf # sfs) ! k) = i + k
              \<and> (breaks_after ((sf # sfs) ! k) ((step # rest) ! k) \<longrightarrow> Suc k = length (sf # sfs))
              \<and> (\<not> breaks_after ((sf # sfs) ! k) ((step # rest) ! k)
                   \<longrightarrow> Suc k < length (step # rest) \<longrightarrow> Suc k < length (sf # sfs))"
    proof (intro allI impI)
      fix k assume k: "k < length (sf # sfs)"
      show "si_index ((sf # sfs) ! k) = i + k
              \<and> (breaks_after ((sf # sfs) ! k) ((step # rest) ! k) \<longrightarrow> Suc k = length (sf # sfs))
              \<and> (\<not> breaks_after ((sf # sfs) ! k) ((step # rest) ! k)
                   \<longrightarrow> Suc k < length (step # rest) \<longrightarrow> Suc k < length (sf # sfs))"
      proof (cases k)
        case 0
        then show ?thesis using ix stp False ne by auto
      next
        case (Suc j)
        then have "j < length sfs" using k by simp
        with all Suc show ?thesis by simp
      qed
    qed
    then show ?thesis using s1 s2 len
      by (intro exI [where x = "sf # sfs"]) simp
  qed
qed

text \<open>
  Claim C3. In a build that returns, the terminal \<^verbatim>\<open>step_info\<close> records are those of
  the steps at the indexes 0, 1, ... in order, and for the step at index \<open>k\<close> among
  them: if its status is \<^verbatim>\<open>cancelled\<close> it is the last step executed, whatever its
  \<^verbatim>\<open>stop_on_fail\<close>; if its status is \<^verbatim>\<open>fail\<close> or \<^verbatim>\<open>exception\<close> and it has
  \<^verbatim>\<open>stop_on_fail\<close> it is the last step executed; and if it has no \<^verbatim>\<open>stop_on_fail\<close>
  and its status is not \<^verbatim>\<open>cancelled\<close>, the next step of the builder, when there is one,
  is executed as well.
\<close>

theorem build_loop_short_circuit:
  assumes "do_build e b w = Inr (bi, b', w')"
  shows "length (bi_steps bi) \<le> length (steps b)
       \<and> (\<forall>k < length (bi_steps bi).
             si_index (bi_steps bi ! k) = k
           \<and> (si_status (bi_steps bi ! k) = Cancelled \<longrightarrow> length (bi_steps bi) = Suc k)
           \<and> (si_status (bi_steps bi ! k) \<in> {Fail, Exception} \<and> stop_on_fail (steps b ! k)
                \<longrightarrow> length (bi_steps bi) = Suc k)
           \<and> (\<not> stop_on_fail (steps b ! k) \<and> si_status (bi_steps bi ! k) \<noteq> Cancelled
                \<and> Suc k < length (steps b)
                \<longrightarrow> Suc k < length (bi_steps bi)))"
proof -
  let ?b1 = "send_info (BuildInfo \<lparr> bi_steps = [], bi_status = Some Running, bi_total_steps = None \<rparr>) b"
  let ?st0 = "\<lparr> bs_builder = ?b1, bs_world = w, build_status = None, last_step_status = None,
                  last_step_output = None, build_info_steps = [] \<rparr>"
  from assms obtain st where
    l: "build_loop e 0 (steps ?b1) ?st0 = Inr st"
    and bi: "bi_steps bi = build_info_steps st"
    by (auto simp: do_build_def Let_def split: sum.splits)
  have sb: "steps ?b1 = steps b" by (simp add: send_info_def)
  from build_loop_stops [OF l] bi sb have
    len: "length (bi_steps bi) \<le> length (steps b)"
    and all: "\<forall>k < length (bi_steps bi).
                si_index (bi_steps bi ! k) = k
              \<and> (breaks_after (bi_steps bi ! k) (steps b ! k) \<longrightarrow> Suc k = length (bi_steps bi))
              \<and> (\<not> breaks_after (bi_steps bi ! k) (steps b ! k)
                   \<longrightarrow> Suc k < length (steps b) \<longrightarrow> Suc k < length (bi_steps bi))"
    by auto
  show ?thesis
  proof (intro conjI allI impI)
    show "length (bi_steps bi) \<le> length (steps b)" by (rule len)
  next
    fix k assume "k < length (bi_steps bi)"
    with all show "si_index (bi_steps bi ! k) = k" by simp
  next
    fix k assume "k < length (bi_steps bi)" "si_status (bi_steps bi ! k) = Cancelled"
    with all show "length (bi_steps bi) = Suc k" by (auto simp: breaks_after_def)
  next
    fix k assume "k < length (bi_steps bi)"
      "si_status (bi_steps bi ! k) \<in> {Fail, Exception} \<and> stop_on_fail (steps b ! k)"
    with all show "length (bi_steps bi) = Suc k" by (auto simp: breaks_after_def)
  next
    fix k assume "k < length (bi_steps bi)"
      "\<not> stop_on_fail (steps b ! k) \<and> si_status (bi_steps bi ! k) \<noteq> Cancelled
                \<and> Suc k < length (steps b)"
    with all show "Suc k < length (bi_steps bi)" by (auto simp: breaks_after_def)
  qed
qed

lemma ex_stop_steps_build:
  "\<not> isl (do_build (ex_env ex_shell_fail) (ex_builder ex_plain_conf ex_stop_steps) ex_world)"
  "map si_status (bi_steps (fst (projr (do_build (ex_env ex_shell_fail) (ex_builder ex_plain_conf ex_stop_steps) ex_world))))
     = [Fail]"
  by (simp_all add: build_eval_simps ex_env_def ex_builder_def ex_world_def ex_shell_fail_def
      ex_stop_steps_def)

theorem build_loop_short_circuit_witness:
  "length (bi_steps (fst (projr (do_build (ex_env ex_shell_fail) (ex_builder ex_plain_conf ex_stop_steps) ex_world))))
     = 1
   \<and> length (steps (ex_builder ex_plain_conf ex_stop_steps)) = 2
   \<and> stop_on_fail (steps (ex_builder ex_plain_conf ex_stop_steps) ! 0)
   \<and> length (bi_steps (fst (projr (do_build (ex_env ex_shell_fail) (ex_builder ex_two_conf ex_two_steps) ex_world))))
     = 2
   \<and> \<not> stop_on_fail (steps (ex_builder ex_two_conf ex_two_steps) ! 0)"
proof -
  let ?r = "do_build (ex_env ex_shell_fail) (ex_builder ex_plain_conf ex_stop_steps) ex_world"
  let ?bi = "fst (projr ?r)"
  have r: "?r = Inr (?bi, fst (snd (projr ?r)), snd (snd (projr ?r)))"
    using ex_stop_steps_build(1) by simp
  have st: "si_status (bi_steps ?bi ! 0) = Fail" and k: "0 < length (bi_steps ?bi)"
    using ex_stop_steps_build(2) by (auto simp: map_eq_Cons_conv)
  have sof: "stop_on_fail (steps (ex_builder ex_plain_conf ex_stop_steps) ! 0)"
    and len: "length (steps (ex_builder ex_plain_conf ex_stop_steps)) = 2"
    by (simp_all add: ex_builder_def ex_stop_steps_def BuildStep_init_def)
  from build_loop_short_circuit [OF r] k st sof
  have one: "length (bi_steps ?bi) = Suc 0" by blast
  let ?r2 = "do_build (ex_env ex_shell_fail) (ex_builder ex_two_conf ex_two_steps) ex_world"
  let ?bi2 = "fst (projr ?r2)"
  have r2: "?r2 = Inr (?bi2, fst (snd (projr ?r2)), snd (snd (projr ?r2)))"
    using ex_two_steps_build(1) by simp
  have st2: "si_status (bi_steps ?bi2 ! 0) = Warning" and k2: "0 < length (bi_steps ?bi2)"
    using ex_two_steps_build(2) by (auto simp: map_eq_Cons_conv)
  have nsof: "\<not> stop_on_fail (steps (ex_builder ex_two_conf ex_two_steps) ! 0)"
    and len2: "length (steps (ex_builder ex_two_conf ex_two_steps)) = 2"
    by (simp_all add: ex_builder_def ex_two_steps_def BuildStep_init_def)
  from build_loop_short_circuit [OF r2] k2 st2 nsof len2
  have "length (bi_steps ?bi2) \<le> 2" and "Suc 0 < length (bi_steps ?bi2)" by auto
  then have two: "length (bi_steps ?bi2) = 2" by simp
  from one two sof len nsof show ?thesis by simp
qed

lemma segment_output_indexes:
  assumes "si_status sr = Running" and "si_status sf \<noteq> Running"
    and "leading_output_indexes rest = []"
  shows "output_indexes (StepInfo sr # output_msgs u 0 outs @ StepInfo sf # rest)
           = [0..<length outs] # output_indexes rest"
    and "leading_output_indexes (StepInfo sr # output_msgs u 0 outs @ StepInfo sf # rest) = []"
  using assms leading_output_msgs [of u 0 outs "StepInfo sf # rest"]
    output_indexes_output_msgs [of u 0 outs "StepInfo sf # rest"]
  by simp_all

lemma build_loop_trace:
  assumes "build_loop e i ss st = Inr st'"
  shows "\<exists>new sfs. manager (bs_builder st') = manager (bs_builder st) @ new
          \<and> build_info_steps st' = build_info_steps st @ sfs
          \<and> leading_output_indexes new = []
          \<and> length (output_indexes new) = length sfs
          \<and> (\<forall>xs \<in> set (output_indexes new). xs \<noteq> [] \<and> xs = [0..<length xs])"
  using assms
proof (induction ss arbitrary: i st)
  case Nil
  then show ?case by (intro exI [where x = "[]"]) simp
next
  case (Cons step rest)
  from Cons.prems obtain st1 stop where
    d: "do_build_step e i step st = Inr (st1, stop)"
    by (cases "do_build_step e i step st") auto
  from do_build_step_effect [OF d] obtain sr sf outs where
    m1: "manager (bs_builder st1) =
           manager (bs_builder st) @ StepInfo sr # output_msgs (si_uuid sr) 0 outs @ [StepInfo sf]"
    and ne: "outs \<noteq> []" and run: "si_status sr = Running" and fin: "si_status sf \<noteq> Running"
    and s1: "build_info_steps st1 = build_info_steps st @ [sf]"
    by blast
  show ?case
  proof (cases stop)
    case True
    then have "st' = st1" using Cons.prems d by simp
    then show ?thesis
      using m1 s1 ne segment_output_indexes [OF run fin, of "[]" "si_uuid sr" outs]
      by (intro exI [where x = "StepInfo sr # output_msgs (si_uuid sr) 0 outs @ [StepInfo sf]"]
          exI [where x = "[sf]"]) simp
  next
    case False
    then have "build_loop e (Suc i) rest st1 = Inr st'" using Cons.prems d by simp
    from Cons.IH [OF this] obtain new sfs where
      m2: "manager (bs_builder st') = manager (bs_builder st1) @ new"
      and s2: "build_info_steps st' = build_info_steps st1 @ sfs"
      and l2: "leading_output_indexes new = []"
      and n2: "length (output_indexes new) = length sfs"
      and a2: "\<forall>xs \<in> set (output_indexes new). xs \<noteq> [] \<and> xs = [0..<length xs]"
      by blast
    show ?thesis
      using m1 s1 ne m2 s2 n2 a2 segment_output_indexes [OF run fin l2, of "si_uuid sr" outs]
      by (intro exI [where x = "StepInfo sr # output_msgs (si_uuid sr) 0 outs @ StepInfo sf # new"]
          exI [where x = "sf # sfs"]) simp
  qed
qed

text \<open>
  Claim C4. In a build that returns, every step started has its own run of
  \<^verbatim>\<open>step_output_info\<close> messages between its \<^verbatim>\<open>step_info\<close> with status \<^verbatim>\<open>running\<close> and
  the next one, one run per executed step, and the \<^verbatim>\<open>output_index\<close> values of a run
  are 0, 1, 2, ... in emission order: the counter starts again at 0 with each step,
  and the indexes of a step are strictly increasing.
\<close>

theorem output_index_dense_per_step:
  assumes "do_build e b w = Inr (bi, b', w')"
  shows "length (output_indexes (drop (length (manager b)) (manager b'))) = length (bi_steps bi)
       \<and> (\<forall>xs \<in> set (output_indexes (drop (length (manager b)) (manager b'))).
             xs = [0..<length xs] \<and> sorted_wrt (<) xs)"
proof -
  let ?m0 = "BuildInfo \<lparr> bi_steps = [], bi_status = Some Running, bi_total_steps = None \<rparr>"
  let ?b1 = "send_info ?m0 b"
  let ?st0 = "\<lparr> bs_builder = ?b1, bs_world = w, build_status = None, last_step_status = None,
                  last_step_output = None, build_info_steps = [] \<rparr>"
  from assms obtain st where
    l: "build_loop e 0 (steps ?b1) ?st0 = Inr st"
    and bi: "bi_steps bi = build_info_steps st" and b': "b' = bs_builder st"
    by (auto simp: do_build_def Let_def split: sum.splits)
  from build_loop_trace [OF l] obtain new where
    m: "manager (bs_builder st) = manager ?b1 @ new"
    and n: "length (output_indexes new) = length (build_info_steps st)"
    and a: "\<forall>xs \<in> set (output_indexes new). xs \<noteq> [] \<and> xs = [0..<length xs]"
    by auto
  have "manager b' = manager b @ ?m0 # new" using m b' by (simp add: send_info_def)
  then have d: "output_indexes (drop (length (manager b)) (manager b')) = output_indexes new"
    by simp
  have "\<forall>xs \<in> set (output_indexes new). xs = [0..<length xs] \<and> sorted_wrt (<) xs"
  proof
    fix xs assume "xs \<in> set (output_indexes new)"
    with a have x: "xs = [0..<length xs]" by blast
    have "sorted_wrt (<) [0..<length xs]" by simp
    with x show "xs = [0..<length xs] \<and> sorted_wrt (<) xs" by simp
  qed
  with n bi d show ?thesis by simp
qed

lemma ex_one_step_build:
  "\<not> isl (do_build (ex_env ex_shell_lines) (ex_builder ex_plain_conf ex_one_step) ex_world)"
  "output_indexes (manager (fst (snd (projr (do_build (ex_env ex_shell_lines) (ex_builder ex_plain_conf ex_one_step) ex_world)))))
     = [[0, 1, 2]]"
  by (simp_all add: build_eval_simps ex_env_def ex_builder_def ex_world_def ex_shell_lines_def
      ex_one_step_def)

theorem output_index_dense_per_step_witness:
  "output_indexes (manager (fst (snd (projr (do_build (ex_env ex_shell_lines) (ex_builder ex_plain_conf ex_one_step) ex_world)))))
     = [[0, 1, 2]]
   \<and> length (bi_steps (fst (projr (do_build (ex_env ex_shell_lines) (ex_builder ex_plain_conf ex_one_step) ex_world)))) = 1"
proof -
  let ?r = "do_build (ex_env ex_shell_lines) (ex_builder ex_plain_conf ex_one_step) ex_world"
  have r: "?r = Inr (fst (projr ?r), fst (snd (projr ?r)), snd (snd (projr ?r)))"
    using ex_one_step_build(1) by simp
  have m: "manager (ex_builder ex_plain_conf ex_one_step) = []" by (simp add: ex_builder_def)
  from output_index_dense_per_step [OF r] show ?thesis
    by (simp add: m ex_one_step_build(2))
qed

end
